theory Spec2Isabelle
  imports Main "HOL-Library.AList"
begin

section \<open>Track-and-trace upload tool: the job processing pipeline\<close>

text \<open>
  A shallow embedding of \<^verbatim>\<open>trackandtrace/queue_processor.py\<close>,
  \<^verbatim>\<open>trackandtrace/file_processor.py\<close> and \<^verbatim>\<open>trackandtrace/database_handler.py\<close>.

  The Python objects are mutated in place; here every function takes the state it reads
  and returns the state it leaves. The state outside the job is one record, \<open>world\<close>:
  the clock, the file system, the dedup index of the file processor, the tables of the
  database and a trace of the effects in the order they happen. What the program cannot
  decide by itself (whether a database call goes through, what pandas parses from the
  bytes of a file, what MD5 returns) is a field of the record \<open>externals\<close>, so that
  every theorem holds for every behaviour of the outside.

  Every function of the three modules catches \<^verbatim>\<open>Exception\<close> and returns a failure
  value; the model returns that value where the external call fails. Logger calls are
  left out, except the error line of \<^verbatim>\<open>cleanup_temp_table\<close>.
\<close>

subsection \<open>Tabular data (pandas.DataFrame)\<close>

text \<open>
  A frame is its list of columns (name and dtype) and its rows, one cell per column.
  \<open>NaN\<close> is the missing value of every dtype (NaN, None, NaT). Numbers are integers.
\<close>

datatype cell = NaN | Str string | Num int | Stamp nat

datatype dtype = Object | Int64 | Float64 | Datetime64

record dataframe =
  columns :: "(string \<times> dtype) list"
  rows :: "cell list list"

definition column_names :: "dataframe \<Rightarrow> string list" where
  "column_names df = map fst (columns df)"

text \<open>\<^verbatim>\<open>df.empty\<close>: one of the two axes has length 0.\<close>

definition df_empty :: "dataframe \<Rightarrow> bool" where
  "df_empty df = (columns df = [] \<or> rows df = [])"

text \<open>\<^verbatim>\<open>df.dropna(how='all')\<close>: a row goes when all its cells are missing.\<close>

definition dropna_all :: "dataframe \<Rightarrow> dataframe" where
  "dropna_all df = df\<lparr>rows := filter (\<lambda>r. list_ex (\<lambda>c. c \<noteq> NaN) r) (rows df)\<rparr>"

text \<open>The cell of a row under a column name (the first column of that name).\<close>

definition cell_at :: "dataframe \<Rightarrow> cell list \<Rightarrow> string \<Rightarrow> cell option" where
  "cell_at df r name = map_of (zip (column_names df) r) name"

text \<open>
  \<^verbatim>\<open>df.drop_duplicates(subset=[key], keep='first')\<close>: a row goes when an earlier
  row has the same cell under \<open>key\<close>; two missing cells count as the same.
\<close>

fun drop_dup_rows :: "dataframe \<Rightarrow> string \<Rightarrow> cell option list \<Rightarrow> cell list list \<Rightarrow> cell list list" where
  "drop_dup_rows df key seen [] = []"
| "drop_dup_rows df key seen (r # rs) =
     (if cell_at df r key \<in> set seen then drop_dup_rows df key seen rs
      else r # drop_dup_rows df key (cell_at df r key # seen) rs)"

definition drop_duplicates :: "dataframe \<Rightarrow> string \<Rightarrow> dataframe" where
  "drop_duplicates df key = df\<lparr>rows := drop_dup_rows df key [] (rows df)\<rparr>"

text \<open>\<^verbatim>\<open>df[name] = v\<close> with a scalar: the column is overwritten, or added last.\<close>

definition set_column :: "dataframe \<Rightarrow> string \<Rightarrow> dtype \<Rightarrow> cell \<Rightarrow> dataframe" where
  "set_column df name t v =
     (if name \<in> set (column_names df)
      then df\<lparr>columns := map (\<lambda>(n, t'). if n = name then (n, t) else (n, t')) (columns df),
              rows := map (\<lambda>r. map (\<lambda>(n, x). if n = name then v else x) (zip (column_names df) r)) (rows df)\<rparr>
      else df\<lparr>columns := columns df @ [(name, t)], rows := map (\<lambda>r. r @ [v]) (rows df)\<rparr>)"

text \<open>\<^verbatim>\<open>df[name] = f(df[name])\<close> for a cell-wise \<open>f\<close>, with the dtype of the result.\<close>

definition map_column :: "dataframe \<Rightarrow> string \<Rightarrow> dtype \<Rightarrow> (cell \<Rightarrow> cell) \<Rightarrow> dataframe" where
  "map_column df name t f =
     df\<lparr>columns := map (\<lambda>(n, t'). if n = name then (n, t) else (n, t')) (columns df),
        rows := map (\<lambda>r. map (\<lambda>(n, x). if n = name then f x else x) (zip (column_names df) r)) (rows df)\<rparr>"

definition column_cells :: "dataframe \<Rightarrow> string \<Rightarrow> cell list" where
  "column_cells df name = concat (map (\<lambda>r. map snd (filter (\<lambda>(n, x). n = name) (zip (column_names df) r))) (rows df))"

definition dtype_of :: "dataframe \<Rightarrow> string \<Rightarrow> dtype option" where
  "dtype_of df name = map_of (columns df) name"

subsection \<open>Strings (the str methods the code calls)\<close>

text \<open>
  A character of a Python string is a code point; a \<open>char\<close> here is a code point below
  256. \<^verbatim>\<open>str.lower()\<close> on these maps the letters A to Z, and the capital letters
  \<^verbatim>\<open>U+00C0\<close> to \<^verbatim>\<open>U+00DE\<close> except the sign \<^verbatim>\<open>U+00D7\<close>, to the code point 32 above;
  \<^verbatim>\<open>str.strip()\<close> removes the blank, \<^verbatim>\<open>U+0009\<close> to \<^verbatim>\<open>U+000D\<close>, \<^verbatim>\<open>U+001C\<close> to
  \<^verbatim>\<open>U+001F\<close>, \<^verbatim>\<open>U+0085\<close> and \<^verbatim>\<open>U+00A0\<close>. Text with a code point from 256 on (where
  Python knows more letters and more white space) is outside the model; the file names,
  column names and cells of the examples are ASCII.
\<close>

definition upper_chars :: string where
  "upper_chars = ''ABCDEFGHIJKLMNOPQRSTUVWXYZ'' @
     [CHR 0xC0, CHR 0xC1, CHR 0xC2, CHR 0xC3, CHR 0xC4, CHR 0xC5, CHR 0xC6, CHR 0xC7,
      CHR 0xC8, CHR 0xC9, CHR 0xCA, CHR 0xCB, CHR 0xCC, CHR 0xCD, CHR 0xCE, CHR 0xCF,
      CHR 0xD0, CHR 0xD1, CHR 0xD2, CHR 0xD3, CHR 0xD4, CHR 0xD5, CHR 0xD6,
      CHR 0xD8, CHR 0xD9, CHR 0xDA, CHR 0xDB, CHR 0xDC, CHR 0xDD, CHR 0xDE]"

definition lower_chars :: string where
  "lower_chars = ''abcdefghijklmnopqrstuvwxyz'' @
     [CHR 0xE0, CHR 0xE1, CHR 0xE2, CHR 0xE3, CHR 0xE4, CHR 0xE5, CHR 0xE6, CHR 0xE7,
      CHR 0xE8, CHR 0xE9, CHR 0xEA, CHR 0xEB, CHR 0xEC, CHR 0xED, CHR 0xEE, CHR 0xEF,
      CHR 0xF0, CHR 0xF1, CHR 0xF2, CHR 0xF3, CHR 0xF4, CHR 0xF5, CHR 0xF6,
      CHR 0xF8, CHR 0xF9, CHR 0xFA, CHR 0xFB, CHR 0xFC, CHR 0xFD, CHR 0xFE]"

definition lower_char :: "char \<Rightarrow> char" where
  "lower_char c = (case map_of (zip upper_chars lower_chars) c of Some d \<Rightarrow> d | None \<Rightarrow> c)"

definition str_lower :: "string \<Rightarrow> string" where
  "str_lower s = map lower_char s"

definition endswith :: "string \<Rightarrow> string \<Rightarrow> bool" where
  "endswith s suf = (length suf \<le> length s \<and> drop (length s - length suf) s = suf)"

definition is_space :: "char \<Rightarrow> bool" where
  "is_space c = (c \<in> set [CHR '' '', CHR 0x09, CHR 0x0A, CHR 0x0B, CHR 0x0C, CHR 0x0D,
                          CHR 0x1C, CHR 0x1D, CHR 0x1E, CHR 0x1F, CHR 0x85, CHR 0xA0])"

definition str_strip :: "string \<Rightarrow> string" where
  "str_strip s = rev (dropWhile is_space (rev (dropWhile is_space s)))"

definition str_replace_space :: "string \<Rightarrow> string" where
  "str_replace_space s = map (\<lambda>c. if c = CHR '' '' then CHR ''_'' else c) s"

text \<open>\<^verbatim>\<open>sep.join(xs)\<close>.\<close>

fun join :: "string \<Rightarrow> string list \<Rightarrow> string" where
  "join sep [] = []"
| "join sep [x] = x"
| "join sep (x # y # ys) = x @ sep @ join sep (y # ys)"

text \<open>\<^verbatim>\<open>Path(p).name\<close>: the last component of the path.\<close>

definition path_name :: "string \<Rightarrow> string" where
  "path_name p = rev (takeWhile (\<lambda>c. c \<noteq> CHR ''/'') (dropWhile (\<lambda>c. c = CHR ''/'') (rev p)))"

text \<open>The regular expression \<^verbatim>\<open>\d{4}-\d{2}-\d{2}\<close>, searched anywhere in the string.\<close>

definition is_digit :: "char \<Rightarrow> bool" where
  "is_digit c = (c \<in> set ''0123456789'')"

fun date_prefix :: "string \<Rightarrow> bool" where
  "date_prefix (a # b # c # d # e # f # g # h # i # j # _) =
     (is_digit a \<and> is_digit b \<and> is_digit c \<and> is_digit d \<and> e = CHR ''-'' \<and>
      is_digit f \<and> is_digit g \<and> h = CHR ''-'' \<and> is_digit i \<and> is_digit j)"
| "date_prefix _ = False"

fun contains_date :: "string \<Rightarrow> bool" where
  "contains_date [] = False"
| "contains_date (c # s) = (date_prefix (c # s) \<or> contains_date s)"

subsection \<open>The state outside the job, and what the outside decides\<close>

record file_stats =
  records_processed :: nat
  temp_table :: string
  file_processing_time :: int

text \<open>One entry of \<^verbatim>\<open>FileProcessor._processed_files\<close>.\<close>

record file_info =
  file_path :: string
  file_hash :: string
  content_hash :: string
  processed_at :: nat
  file_size :: nat
  records_count :: nat
  file_processing_stats :: file_stats

datatype JobStatus = PENDING | IN_PROGRESS | COMPLETED | FAILED | CANCELLED

text \<open>
  The trace: an assignment to a lifecycle field of a job (with the job's id), a
  \<^verbatim>\<open>time.sleep\<close>, a statement that changed the database, a \<^verbatim>\<open>DataFrame.to_sql\<close>,
  a logged error.
\<close>

datatype event =
    StatusSet string JobStatus
  | StartedAtSet string nat
  | CompletedAtSet string nat
  | Sleep nat
  | Sql string
  | ToSql string dataframe
  | LogError string

text \<open>
  \<open>fs\<close> holds the files that exist, each path with its bytes; \<open>processed_files_db\<close>
  is the dict \<^verbatim>\<open>_processed_files\<close> in insertion order; \<open>temp_tables\<close> are the tables of
  the staging schema, by name, and \<open>db_tables\<close> the names of the other tables. The three
  are association lists, read with \<open>map_of\<close>. Time passes in
  \<^verbatim>\<open>time.sleep\<close> only: \<^verbatim>\<open>datetime.now()\<close> reads \<open>clock\<close>.
\<close>

record world =
  clock :: nat
  fs :: "(string \<times> string) list"
  archive :: "(string \<times> string) list"
  processed_files_db :: "(string \<times> file_info) list"
  schema_exists :: bool
  temp_tables :: "(string \<times> dataframe) list"
  db_tables :: "string list"
  uuid_count :: nat
  emails_read :: "int list"
  events :: "event list"

text \<open>
  The outside. \<open>read_excel\<close> is \<^verbatim>\<open>pandas.read_excel\<close> on the bytes of a file (\<open>None\<close>
  when it raises), \<open>to_string\<close> is \<^verbatim>\<open>DataFrame.to_string(index=False)\<close>, \<open>md5\<close> the hex
  digest (32 digits, so never the empty string: a theorem that needs this assumes it), \<open>to_datetime\<close> is \<^verbatim>\<open>pandas.to_datetime(errors='coerce')\<close> on one cell,
  \<open>repr\<close> the text of a cell that is not a string, \<open>uuid_hex n\<close> the first 8 hex digits
  of the \<open>n\<close>-th \<^verbatim>\<open>uuid.uuid4()\<close>. The other fields say whether a call to the database,
  the file system or the mail server goes through (the call raises when they are false).
\<close>

record externals =
  read_excel :: "string \<Rightarrow> dataframe option"
  to_string :: "dataframe \<Rightarrow> string"
  md5 :: "string \<Rightarrow> string"
  to_datetime :: "cell \<Rightarrow> cell"
  repr :: "cell \<Rightarrow> string"
  uuid_hex :: "nat \<Rightarrow> string"
  schema_ok :: bool
  create_ok :: "string \<Rightarrow> bool"
  upsert_ok :: "string \<Rightarrow> bool"
  drop_ok :: "string \<Rightarrow> bool"
  move_ok :: "string \<Rightarrow> bool"
  imap_ok :: bool

text \<open>\<^verbatim>\<open>DatabaseConfig\<close>.\<close>

record DatabaseConfig =
  temp_schema :: string
  target_table :: string
  unique_key :: string

definition emit :: "event list \<Rightarrow> world \<Rightarrow> world" where
  "emit es w = w\<lparr>events := events w @ es\<rparr>"

subsection \<open>file_processor.py\<close>

definition calculate_file_hash :: "externals \<Rightarrow> world \<Rightarrow> string \<Rightarrow> string" where
  "calculate_file_hash env w path = (case map_of (fs w) path of None \<Rightarrow> [] | Some b \<Rightarrow> md5 env b)"

definition calculate_content_hash :: "externals \<Rightarrow> dataframe \<Rightarrow> string" where
  "calculate_content_hash env df = md5 env (to_string env df)"

text \<open>
  \<^verbatim>\<open>is_duplicate_file\<close> and \<^verbatim>\<open>is_duplicate_content\<close> return \<^verbatim>\<open>(True, processed_file)\<close>
  for the first entry of the index with the same hash, here \<open>Some processed_file\<close>, and
  \<^verbatim>\<open>(False, None)\<close> otherwise, here \<open>None\<close>.
\<close>

definition is_duplicate_file :: "externals \<Rightarrow> world \<Rightarrow> string \<Rightarrow> string option" where
  "is_duplicate_file env w path =
     (let h = calculate_file_hash env w path in
      if h = [] then None
      else map_option fst (find (\<lambda>(processed_file, info). file_hash info = h) (processed_files_db w)))"

definition is_duplicate_content :: "externals \<Rightarrow> world \<Rightarrow> dataframe \<Rightarrow> string \<Rightarrow> string option" where
  "is_duplicate_content env w df path =
     (let h = calculate_content_hash env df in
      if h = [] then None
      else map_option fst (find (\<lambda>(processed_file, info). content_hash info = h) (processed_files_db w)))"

datatype file_error =
    NotExists | EmptyFile | NotExcel | ReadError | NoData
  | MissingColumns "string list"
  | DuplicateFile string
  | DuplicateContent string

definition validate_excel_file :: "externals \<Rightarrow> world \<Rightarrow> string \<Rightarrow> file_error + dataframe" where
  "validate_excel_file env w path =
     (case map_of (fs w) path of
        None \<Rightarrow> Inl NotExists
      | Some b \<Rightarrow>
          if length b = 0 then Inl EmptyFile
          else if \<not> (endswith (str_lower path) ''.xlsx'' \<or> endswith (str_lower path) ''.xls'') then Inl NotExcel
          else (case read_excel env b of
                  None \<Rightarrow> Inl ReadError
                | Some df \<Rightarrow>
                    if df_empty df then Inl NoData
                    else (let missing_columns = filter (\<lambda>col. col \<notin> set (column_names df)) [''hawb''] in
                          if missing_columns \<noteq> [] then Inl (MissingColumns missing_columns)
                          else Inr df)))"

definition clean_column_name :: "string \<Rightarrow> string" where
  "clean_column_name n = str_replace_space (str_lower (str_strip n))"

text \<open>\<^verbatim>\<open>astype(str)\<close> on one cell.\<close>

definition cell_text :: "externals \<Rightarrow> cell \<Rightarrow> string" where
  "cell_text env c = (case c of Str s \<Rightarrow> s | NaN \<Rightarrow> ''nan'' | _ \<Rightarrow> repr env c)"

text \<open>
  \<^verbatim>\<open>astype(str).str.strip()\<close>, then \<^verbatim>\<open>replace('nan', '')\<close>, then \<^verbatim>\<open>replace('', None)\<close>,
  read as: the empty string becomes the missing value.
\<close>

definition clean_string_cell :: "externals \<Rightarrow> cell \<Rightarrow> cell" where
  "clean_string_cell env c =
     (let s = str_strip (cell_text env c);
          s' = (if s = ''nan'' then [] else s)
      in if s' = [] then NaN else Str s')"

text \<open>
  The last loop of \<^verbatim>\<open>_process_dataframe\<close>. With a label that two columns share,
  \<^verbatim>\<open>df[col]\<close> is a frame and \<^verbatim>\<open>.dtype\<close> raises: the handler returns the frame as it is.
\<close>

fun clean_object_columns :: "externals \<Rightarrow> string list \<Rightarrow> dataframe \<Rightarrow> dataframe" where
  "clean_object_columns env [] df = df"
| "clean_object_columns env (col # cols) df =
     (if length (filter (\<lambda>n. n = col) (column_names df)) \<noteq> 1 then df
      else if dtype_of df col = Some Object
        then clean_object_columns env cols (map_column df col Object (clean_string_cell env))
      else clean_object_columns env cols df)"

definition process_dataframe :: "externals \<Rightarrow> nat \<Rightarrow> dataframe \<Rightarrow> string \<Rightarrow> dataframe" where
  "process_dataframe env now df path =
     (let df1 = dropna_all df;
          df2 = (if ''hawb'' \<in> set (column_names df1) then drop_duplicates df1 ''hawb'' else df1);
          df3 = df2\<lparr>columns := map (\<lambda>(n, t). (clean_column_name n, t)) (columns df2)\<rparr>;
          df4 = set_column df3 ''file_source'' Object (Str (path_name path));
          df5 = set_column df4 ''processed_at'' Datetime64 (Stamp now)
      in clean_object_columns env (column_names df5) df5)"

definition process_excel_file :: "externals \<Rightarrow> world \<Rightarrow> string \<Rightarrow> file_error + dataframe" where
  "process_excel_file env w path =
     (case validate_excel_file env w path of
        Inl error_msg \<Rightarrow> Inl error_msg
      | Inr df \<Rightarrow>
          (case is_duplicate_file env w path of
             Some duplicate_file \<Rightarrow> Inl (DuplicateFile duplicate_file)
           | None \<Rightarrow>
               (case is_duplicate_content env w df path of
                  Some duplicate_content_file \<Rightarrow> Inl (DuplicateContent duplicate_content_file)
                | None \<Rightarrow> Inr (process_dataframe env (clock w) df path))))"

text \<open>
  \<^verbatim>\<open>mark_file_as_processed\<close>: \<^verbatim>\<open>Path(file_path).stat()\<close> raises when the file is gone,
  and the handler records nothing.
\<close>

definition mark_file_as_processed :: "externals \<Rightarrow> world \<Rightarrow> string \<Rightarrow> dataframe \<Rightarrow> file_stats \<Rightarrow> world" where
  "mark_file_as_processed env w path df stats =
     (case map_of (fs w) path of
        None \<Rightarrow> w
      | Some b \<Rightarrow>
          (let file_info = \<lparr>file_path = path,
                            file_hash = calculate_file_hash env w path,
                            content_hash = calculate_content_hash env df,
                            processed_at = clock w,
                            file_size = length b,
                            records_count = length (rows df),
                            file_processing_stats = stats\<rparr>
           in w\<lparr>processed_files_db := AList.update path file_info (processed_files_db w)\<rparr>))"

text \<open>
  \<^verbatim>\<open>move_to_processed\<close>: the file leaves its path for the archive directory (the name
  it gets there is not modelled).
\<close>

definition move_to_processed :: "externals \<Rightarrow> world \<Rightarrow> string \<Rightarrow> world \<times> bool" where
  "move_to_processed env w path =
     (case map_of (fs w) path of
        None \<Rightarrow> (w, False)
      | Some b \<Rightarrow>
          if move_ok env path
          then (w\<lparr>fs := AList.delete path (fs w), archive := archive w @ [(path, b)]\<rparr>, True)
          else (w, False))"

text \<open>
  \<^verbatim>\<open>cleanup_old_files\<close>, the daily retention clean-up: the cutoff is
  \<^verbatim>\<open>file_retention_days\<close> before now (here in the units of the clock), and
  \<^verbatim>\<open>_cleanup_processed_files_db\<close> keeps the entries of the index processed at the cutoff
  or later. A cutoff before the time 0 is the time 0, which keeps every entry. (The
  clean-up also deletes old files from the archive directory, which nothing in the
  pipeline reads; that part is left out.)
\<close>

definition cleanup_processed_files_db :: "nat \<Rightarrow> world \<Rightarrow> world" where
  "cleanup_processed_files_db cutoff_date w =
     w\<lparr>processed_files_db := filter (\<lambda>(file_path, info). processed_at info \<ge> cutoff_date) (processed_files_db w)\<rparr>"

definition cleanup_old_files :: "nat \<Rightarrow> world \<Rightarrow> world" where
  "cleanup_old_files retention_days w = cleanup_processed_files_db (clock w - retention_days) w"

subsection \<open>database_handler.py\<close>

text \<open>
  A call that raises leaves the database as it was: the connection is closed without a
  commit. Queries that only read (the existence of the schema and of the target table,
  the columns of the staging table) are answered from the state and leave no event.
\<close>

definition create_temp_schema :: "DatabaseConfig \<Rightarrow> externals \<Rightarrow> world \<Rightarrow> world \<times> bool" where
  "create_temp_schema cfg env w =
     (if \<not> schema_ok env then (w, False)
      else if \<not> schema_exists w
        then (emit [Sql (''CREATE SCHEMA IF NOT EXISTS '' @ temp_schema cfg)] (w\<lparr>schema_exists := True\<rparr>), True)
      else (w, True))"

definition create_temp_table :: "DatabaseConfig \<Rightarrow> externals \<Rightarrow> world \<Rightarrow> string \<Rightarrow> dataframe \<Rightarrow> world \<times> bool" where
  "create_temp_table cfg env w table_name df =
     (let full_table_name = temp_schema cfg @ ''.'' @ table_name in
      if \<not> create_ok env table_name then (w, False)
      else (emit [Sql (''DROP TABLE IF EXISTS '' @ full_table_name), ToSql table_name df]
              (w\<lparr>temp_tables := AList.update table_name df (temp_tables w)\<rparr>), True))"

text \<open>The first loop of \<^verbatim>\<open>_clean_dataframe\<close>, for one column.\<close>

definition convert_dates :: "externals \<Rightarrow> dataframe \<Rightarrow> string \<Rightarrow> dataframe" where
  "convert_dates env df col =
     (if dtype_of df col = Some Object \<and> list_ex (\<lambda>c. contains_date (cell_text env c)) (column_cells df col)
      then map_column df col Datetime64 (to_datetime env)
      else df)"

text \<open>The second loop, for one column: \<^verbatim>\<open>fillna('')\<close> or \<^verbatim>\<open>fillna(0)\<close>.\<close>

definition fill_missing :: "dataframe \<Rightarrow> string \<Rightarrow> dataframe" where
  "fill_missing df col =
     (if dtype_of df col = Some Object
        then map_column df col Object (\<lambda>c. if c = NaN then Str [] else c)
      else if dtype_of df col \<in> set [Some Int64, Some Float64]
        then map_column df col (the (dtype_of df col)) (\<lambda>c. if c = NaN then Num 0 else c)
      else df)"

text \<open>
  \<^verbatim>\<open>_clean_dataframe\<close>. With a label that two columns share, \<^verbatim>\<open>df[col].dtype\<close> raises
  in the first loop, outside its \<^verbatim>\<open>try\<close>: the result is \<open>None\<close>.
\<close>

definition clean_dataframe :: "externals \<Rightarrow> nat \<Rightarrow> dataframe \<Rightarrow> dataframe option" where
  "clean_dataframe env now df =
     (if \<not> distinct (column_names df) then None
      else (let df1 = dropna_all df;
                df2 = foldl (convert_dates env) df1 (column_names df1);
                df3 = foldl fill_missing df2 (column_names df2);
                df4 = set_column df3 ''processed_at'' Datetime64 (Stamp now);
                df5 = set_column df4 ''file_source'' Object (Str ''email_attachment'')
            in Some df5))"

text \<open>\<^verbatim>\<open>load_excel_to_temp_table\<close> returns \<^verbatim>\<open>(True, df)\<close>, here \<open>Some df\<close>, or \<^verbatim>\<open>(False, None)\<close>.\<close>

definition load_excel_to_temp_table ::
  "DatabaseConfig \<Rightarrow> externals \<Rightarrow> world \<Rightarrow> string \<Rightarrow> string \<Rightarrow> world \<times> dataframe option" where
  "load_excel_to_temp_table cfg env w path table_name =
     (case map_of (fs w) path of
        None \<Rightarrow> (w, None)
      | Some b \<Rightarrow>
          (case read_excel env b of
             None \<Rightarrow> (w, None)
           | Some df \<Rightarrow>
               if df_empty df then (w, None)
               else if unique_key cfg \<notin> set (column_names df) then (w, None)
               else (case clean_dataframe env (clock w) df of
                       None \<Rightarrow> (w, None)
                     | Some df' \<Rightarrow>
                         (case create_temp_table cfg env w table_name df' of
                            (w', False) \<Rightarrow> (w', None)
                          | (w', True) \<Rightarrow> (w', Some df')))))"

definition spaces :: "nat \<Rightarrow> string" where
  "spaces n = replicate n (CHR '' '')"

definition nl :: string where
  "nl = [CHR 0x0A]"

definition create_table_query :: "string \<Rightarrow> string \<Rightarrow> string" where
  "create_table_query target full_temp_table =
     nl @ spaces 24 @ ''CREATE TABLE '' @ target @ '' AS '' @
     nl @ spaces 24 @ ''SELECT * FROM '' @ full_temp_table @ '' WHERE 1=0'' @
     nl @ spaces 20"

text \<open>The three strings the upsert statement is made of, and the statement.\<close>

definition columns_str :: "string list \<Rightarrow> string" where
  "columns_str cols = join '', '' cols"

definition update_str :: "string list \<Rightarrow> string \<Rightarrow> string" where
  "update_str cols key = join '', '' (map (\<lambda>col. col @ '' = src.'' @ col) (filter (\<lambda>col. col \<noteq> key) cols))"

definition upsert_query :: "string \<Rightarrow> string list \<Rightarrow> string \<Rightarrow> string \<Rightarrow> string" where
  "upsert_query target cols full_temp_table key =
     nl @ spaces 20 @ ''INSERT INTO '' @ target @ '' ('' @ columns_str cols @ '')'' @
     nl @ spaces 20 @ ''SELECT '' @ columns_str cols @ '' FROM '' @ full_temp_table @ '' src'' @
     nl @ spaces 20 @ ''ON CONFLICT ('' @ key @ '') DO UPDATE SET'' @
     nl @ spaces 20 @ update_str cols key @
     nl @ spaces 16"

text \<open>
  \<^verbatim>\<open>upsert_data_to_target_table\<close>. The target exists when a table of any schema has its
  name. A staging table that does not exist makes the statement fail. Whether the
  database accepts the statements is the answer \<open>upsert_ok\<close> of the outside; when it
  does not, \<^verbatim>\<open>execute\<close> raises, nothing is committed and the function returns \<^verbatim>\<open>False\<close>.
\<close>

definition upsert_data_to_target_table ::
  "DatabaseConfig \<Rightarrow> externals \<Rightarrow> world \<Rightarrow> string \<Rightarrow> string option \<Rightarrow> world \<times> bool" where
  "upsert_data_to_target_table cfg env w temp_table_name target_arg =
     (let target = (case target_arg of None \<Rightarrow> target_table cfg | Some t \<Rightarrow> t);
          full_temp_table = temp_schema cfg @ ''.'' @ temp_table_name
      in case map_of (temp_tables w) temp_table_name of
           None \<Rightarrow> (w, False)
         | Some staged \<Rightarrow>
             if \<not> upsert_ok env temp_table_name then (w, False)
             else (let table_exists = (target \<in> set (db_tables w) \<or> target \<in> set (map fst (temp_tables w)));
                       created = (if \<not> table_exists then [Sql (create_table_query target full_temp_table)] else []);
                       cols = column_names staged
                   in (emit (created @ [Sql (upsert_query target cols full_temp_table (unique_key cfg))])
                         (w\<lparr>db_tables := List.insert target (db_tables w)\<rparr>), True)))"

definition cleanup_temp_table :: "DatabaseConfig \<Rightarrow> externals \<Rightarrow> world \<Rightarrow> string \<Rightarrow> world \<times> bool" where
  "cleanup_temp_table cfg env w table_name =
     (let full_table_name = temp_schema cfg @ ''.'' @ table_name in
      if drop_ok env table_name
      then (emit [Sql (''DROP TABLE IF EXISTS '' @ full_table_name)]
              (w\<lparr>temp_tables := AList.delete table_name (temp_tables w)\<rparr>), True)
      else (emit [LogError (''Error cleaning up temp table '' @ table_name)] w, False))"

subsection \<open>queue_processor.py: the job and the job processor\<close>

record job_stats =
  total_records :: nat
  processed_files :: nat
  failed_files :: int
  processing_time :: int

record ProcessingJob =
  job_id :: string
  email_uid :: int
  subject :: string
  sender :: string
  date :: nat
  files :: "string list"
  status :: JobStatus
  created_at :: nat
  started_at :: "nat option"
  completed_at :: "nat option"
  error_message :: "string option"
  processing_stats :: "job_stats option"
  retry_count :: int
  max_retries :: int

text \<open>\<^verbatim>\<open>EmailMonitor.mark_email_as_read\<close>, inside the \<^verbatim>\<open>try\<close> of \<^verbatim>\<open>process_job\<close>.\<close>

definition mark_email_as_read :: "externals \<Rightarrow> world \<Rightarrow> int \<Rightarrow> world" where
  "mark_email_as_read env w uid = (if imap_ok env then w\<lparr>emails_read := emails_read w @ [uid]\<rparr> else w)"

text \<open>
  The body of the loop over \<^verbatim>\<open>job.files\<close>. The loop carries the state, the number of
  records and the list \<^verbatim>\<open>processed_files\<close>; each \<^verbatim>\<open>continue\<close> returns them as they are.
  No function called in the body raises; the subtraction \<^verbatim>\<open>datetime.now() - job.started_at\<close>
  raises when \<^verbatim>\<open>started_at\<close> is \<^verbatim>\<open>None\<close>, and the handler of the body goes on to the next
  file (\<^verbatim>\<open>process_job\<close> sets \<^verbatim>\<open>started_at\<close> before the loop).
\<close>

definition process_file ::
  "DatabaseConfig \<Rightarrow> externals \<Rightarrow> ProcessingJob \<Rightarrow> world \<times> nat \<times> string list \<Rightarrow> string \<Rightarrow> world \<times> nat \<times> string list" where
  "process_file cfg env job acc path =
     (case acc of (w, records_total, processed) \<Rightarrow>
        (case process_excel_file env w path of
           Inl error_msg \<Rightarrow> (w, records_total, processed)
         | Inr df \<Rightarrow>
             (let temp_table_name = ''temp_job_'' @ job_id job @ ''_'' @ uuid_hex env (uuid_count w);
                  w1 = w\<lparr>uuid_count := Suc (uuid_count w)\<rparr>
              in case load_excel_to_temp_table cfg env w1 path temp_table_name of
                   (w2, None) \<Rightarrow> (w2, records_total, processed)
                 | (w2, Some loaded_df) \<Rightarrow>
                     (case upsert_data_to_target_table cfg env w2 temp_table_name None of
                        (w3, False) \<Rightarrow> (w3, records_total, processed)
                      | (w3, True) \<Rightarrow>
                          (let record_count = length (rows loaded_df) in
                           case started_at job of
                             None \<Rightarrow> (w3, records_total + record_count, processed)
                           | Some started \<Rightarrow>
                               (let stats = \<lparr>records_processed = record_count,
                                             temp_table = temp_table_name,
                                             file_processing_time = int (clock w3) - int started\<rparr>;
                                    w4 = mark_file_as_processed env w3 path loaded_df stats;
                                    (w5, moved) = move_to_processed env w4 path;
                                    processed' = (if moved then processed @ [path] else processed);
                                    (w6, cleaned) = cleanup_temp_table cfg env w5 temp_table_name
                                in (w6, records_total + record_count, processed')))))))"

text \<open>
  \<^verbatim>\<open>process_job\<close>. The only statement of the outer \<^verbatim>\<open>try\<close> that raises is the
  \<^verbatim>\<open>raise Exception("Failed to create temporary schema")\<close>; the handler marks the job
  FAILED and returns \<^verbatim>\<open>False\<close>.
\<close>

definition process_job :: "DatabaseConfig \<Rightarrow> externals \<Rightarrow> world \<Rightarrow> ProcessingJob \<Rightarrow> bool \<times> ProcessingJob \<times> world" where
  "process_job cfg env w job =
     (let job1 = job\<lparr>status := IN_PROGRESS, started_at := Some (clock w)\<rparr>;
          w1 = emit [StatusSet (job_id job) IN_PROGRESS, StartedAtSet (job_id job) (clock w)] w
      in case create_temp_schema cfg env w1 of
           (w2, False) \<Rightarrow>
             (False,
              job1\<lparr>status := FAILED,
                   error_message := Some ''Failed to create temporary schema'',
                   completed_at := Some (clock w2)\<rparr>,
              emit [StatusSet (job_id job) FAILED, CompletedAtSet (job_id job) (clock w2)] w2)
         | (w2, True) \<Rightarrow>
             (case foldl (process_file cfg env job1) (w2, 0, []) (files job1) of
                (w3, records_total, processed) \<Rightarrow>
                  (let w4 = (if processed \<noteq> [] then mark_email_as_read env w3 (email_uid job1) else w3)
                   in (True,
                       job1\<lparr>status := COMPLETED,
                            completed_at := Some (clock w4),
                            processing_stats := Some \<lparr>total_records = records_total,
                                                     processed_files = length processed,
                                                     failed_files = int (length (files job1)) - int (length processed),
                                                     processing_time = int (clock w4) - int (clock w)\<rparr>\<rparr>,
                       emit [StatusSet (job_id job) COMPLETED, CompletedAtSet (job_id job) (clock w4)] w4))))"

subsection \<open>queue_processor.py: the retry controller and the queue\<close>

definition sleep :: "nat \<Rightarrow> world \<Rightarrow> world" where
  "sleep d w = emit [Sleep d] (w\<lparr>clock := clock w + d\<rparr>)"

text \<open>
  \<^verbatim>\<open>_process_job_with_retry\<close>: the loop over \<^verbatim>\<open>range(job.max_retries + 1)\<close>, as a
  recursion over the attempts left. \<open>proc attempt\<close> is the call
  \<^verbatim>\<open>self.job_processor.process_job(job)\<close> of that attempt; it returns \<open>Inr success\<close>, or
  \<open>Inl e\<close> when it raises \<open>e\<close>.
\<close>

type_synonym processor = "nat \<Rightarrow> world \<Rightarrow> ProcessingJob \<Rightarrow> (string + bool) \<times> ProcessingJob \<times> world"

fun retry_attempts :: "processor \<Rightarrow> nat list \<Rightarrow> world \<Rightarrow> ProcessingJob \<Rightarrow> bool \<times> ProcessingJob \<times> world" where
  "retry_attempts proc [] w job = (False, job, w)"
| "retry_attempts proc (attempt # rest) w job =
     (let job1 = (if attempt > 0 then job\<lparr>retry_count := int attempt\<rparr> else job) in
      case proc attempt w job1 of
        (Inr True, job2, w2) \<Rightarrow> (True, job2, w2)
      | (Inr False, job2, w2) \<Rightarrow>
          if int attempt < max_retries job2
          then retry_attempts proc rest (sleep (2 ^ attempt) w2) job2
          else retry_attempts proc rest w2 job2
      | (Inl e, job2, w2) \<Rightarrow>
          if int attempt < max_retries job2
          then retry_attempts proc rest (sleep (2 ^ attempt) w2) job2
          else retry_attempts proc rest
                 (emit [StatusSet (job_id job2) FAILED, CompletedAtSet (job_id job2) (clock w2)] w2)
                 (job2\<lparr>status := FAILED, error_message := Some e, completed_at := Some (clock w2)\<rparr>))"

definition process_job_with_retry_by :: "processor \<Rightarrow> world \<Rightarrow> ProcessingJob \<Rightarrow> bool \<times> ProcessingJob \<times> world" where
  "process_job_with_retry_by proc w job = retry_attempts proc [0 ..< nat (max_retries job + 1)] w job"

text \<open>
  The job processor of the program: \<^verbatim>\<open>JobProcessor.process_job\<close>, which never raises.
  \<open>envs attempt\<close> is the outside during that attempt.
\<close>

definition job_processor :: "DatabaseConfig \<Rightarrow> (nat \<Rightarrow> externals) \<Rightarrow> processor" where
  "job_processor cfg envs attempt w job =
     (case process_job cfg (envs attempt) w job of (success, job', w') \<Rightarrow> (Inr success, job', w'))"

definition process_job_with_retry ::
  "DatabaseConfig \<Rightarrow> (nat \<Rightarrow> externals) \<Rightarrow> world \<Rightarrow> ProcessingJob \<Rightarrow> bool \<times> ProcessingJob \<times> world" where
  "process_job_with_retry cfg envs w job = process_job_with_retry_by (job_processor cfg envs) w job"

text \<open>
  \<^verbatim>\<open>QueueProcessor\<close>: the FIFO queue and the dict \<^verbatim>\<open>processed_jobs\<close>, in insertion order.
\<close>

record QueueProcessor =
  job_queue :: "ProcessingJob list"
  processed_jobs :: "(string \<times> ProcessingJob) list"
  is_running :: bool

record job_data =
  jd_id :: string
  jd_email_uid :: int
  jd_subject :: string
  jd_sender :: string
  jd_date :: nat
  jd_files :: "string list"

definition add_job :: "world \<Rightarrow> QueueProcessor \<Rightarrow> job_data \<Rightarrow> ProcessingJob \<times> QueueProcessor" where
  "add_job w qp jd =
     (let job = \<lparr>job_id = jd_id jd, email_uid = jd_email_uid jd, subject = jd_subject jd,
                 sender = jd_sender jd, date = jd_date jd, files = jd_files jd,
                 status = PENDING, created_at = clock w, started_at = None, completed_at = None,
                 error_message = None, processing_stats = None, retry_count = 0, max_retries = 3\<rparr>
      in (job, qp\<lparr>job_queue := job_queue qp @ [job]\<rparr>))"

text \<open>
  One turn of \<^verbatim>\<open>_worker_loop\<close>: with an empty queue \<^verbatim>\<open>get\<close> times out and nothing
  changes; otherwise the first job leaves the queue, runs under the retry controller
  and is stored in \<^verbatim>\<open>processed_jobs\<close> under its id.
\<close>

definition worker_step ::
  "DatabaseConfig \<Rightarrow> (nat \<Rightarrow> externals) \<Rightarrow> world \<Rightarrow> QueueProcessor \<Rightarrow> world \<times> QueueProcessor" where
  "worker_step cfg envs w qp =
     (case job_queue qp of
        [] \<Rightarrow> (w, qp)
      | job # rest \<Rightarrow>
          (case process_job_with_retry cfg envs w job of
             (success, job', w') \<Rightarrow>
               (w', qp\<lparr>job_queue := rest,
                       processed_jobs := AList.update (job_id job') job' (processed_jobs qp)\<rparr>)))"

text \<open>\<^verbatim>\<open>cancel_job\<close> looks the id up in \<^verbatim>\<open>processed_jobs\<close>.\<close>

definition cancel_job :: "world \<Rightarrow> QueueProcessor \<Rightarrow> string \<Rightarrow> bool \<times> QueueProcessor" where
  "cancel_job w qp jid =
     (case map_of (processed_jobs qp) jid of
        Some job \<Rightarrow>
          if status job = PENDING
          then (True, qp\<lparr>processed_jobs :=
                            AList.update jid (job\<lparr>status := CANCELLED, completed_at := Some (clock w)\<rparr>)
                              (processed_jobs qp)\<rparr>)
          else (False, qp)
      | None \<Rightarrow> (False, qp))"

subsection \<open>A concrete outside, for the examples\<close>

text \<open>
  The examples run the pipeline on a small world: five workbooks, told apart by their
  bytes, a rendering of frames that keeps every column name and every cell, and a
  digest that keeps its argument (so that two digests are equal only for equal texts).
\<close>

definition cfg0 :: DatabaseConfig where
  "cfg0 = \<lparr>temp_schema = ''temp_processing'', target_table = ''tracking_data'', unique_key = ''hawb''\<rparr>"

definition sheet_a :: dataframe where
  "sheet_a = \<lparr>columns = [(''hawb'', Object), (''pieces'', Int64)],
              rows = [[Str ''A'', Num 1], [Str ''B'', Num 2]]\<rparr>"

definition sheet_no_key :: dataframe where
  "sheet_no_key = \<lparr>columns = [(''awb'', Object), (''pieces'', Int64)],
                   rows = [[Str ''A'', Num 1]]\<rparr>"

definition sheet_dups :: dataframe where
  "sheet_dups = \<lparr>columns = [(''hawb'', Object), (''pieces'', Int64)],
                 rows = [[Str ''A'', Num 1], [Str ''A'', Num 2]]\<rparr>"

definition sheet_b :: dataframe where
  "sheet_b = \<lparr>columns = [(''hawb'', Object), (''pieces'', Int64)],
              rows = [[Str ''C'', Num 5]]\<rparr>"

definition demo_read_excel :: "string \<Rightarrow> dataframe option" where
  "demo_read_excel b =
     (if b = ''workbook A'' \<or> b = ''workbook A, saved again'' then Some sheet_a
      else if b = ''workbook B'' then Some sheet_b
      else if b = ''workbook without hawb'' then Some sheet_no_key
      else if b = ''workbook with A twice'' then Some sheet_dups
      else None)"

definition demo_cell :: "cell \<Rightarrow> string" where
  "demo_cell c = (case c of NaN \<Rightarrow> ''NaN'' | Str s \<Rightarrow> s | Num n \<Rightarrow> ''num'' | Stamp t \<Rightarrow> ''stamp'')"

definition demo_to_string :: "dataframe \<Rightarrow> string" where
  "demo_to_string df =
     join '' '' (column_names df) @ concat (map (\<lambda>r. nl @ join '' '' (map demo_cell r)) (rows df))"

definition demo_md5 :: "string \<Rightarrow> string" where
  "demo_md5 s = ''md5:'' @ s"

definition demo_uuid :: "nat \<Rightarrow> string" where
  "demo_uuid n = ''0000000'' @ [''0123456789abcdef'' ! (n mod 16)]"

definition ok_env :: externals where
  "ok_env = \<lparr>read_excel = demo_read_excel, to_string = demo_to_string, md5 = demo_md5,
             to_datetime = (\<lambda>c. NaN), repr = demo_cell, uuid_hex = demo_uuid,
             schema_ok = True, create_ok = (\<lambda>t. True), upsert_ok = (\<lambda>t. True),
             drop_ok = (\<lambda>t. True), move_ok = (\<lambda>p. True), imap_ok = True\<rparr>"

definition no_schema_env :: externals where
  "no_schema_env = ok_env\<lparr>schema_ok := False\<rparr>"

text \<open>A database that rejects the upsert statement.\<close>

definition no_upsert_env :: externals where
  "no_upsert_env = ok_env\<lparr>upsert_ok := (\<lambda>t. False)\<rparr>"

definition world0 :: world where
  "world0 = \<lparr>clock = 100, fs = [], archive = [], processed_files_db = [],
             schema_exists = False, temp_tables = [], db_tables = [],
             uuid_count = 0, emails_read = [], events = []\<rparr>"

definition new_job :: "string \<Rightarrow> string list \<Rightarrow> ProcessingJob" where
  "new_job jid paths =
     \<lparr>job_id = jid, email_uid = 7, subject = ''Track and Trace'', sender = ''ops@example.org'',
      date = 90, files = paths, status = PENDING, created_at = 100, started_at = None,
      completed_at = None, error_message = None, processing_stats = None,
      retry_count = 0, max_retries = 3\<rparr>"

text \<open>A file arrives in the pending directory.\<close>

definition put_file :: "string \<Rightarrow> string \<Rightarrow> world \<Rightarrow> world" where
  "put_file path b w = w\<lparr>fs := AList.update path b (fs w)\<rparr>"

text \<open>The state after a job has run.\<close>

definition after_job :: "externals \<Rightarrow> ProcessingJob \<Rightarrow> world \<Rightarrow> world" where
  "after_job env job w = snd (snd (process_job cfg0 env w job))"

definition world_a :: world where
  "world_a = put_file ''/pending/a.xlsx'' ''workbook A'' world0"

definition job_a :: ProcessingJob where
  "job_a = new_job ''j1'' [''/pending/a.xlsx'']"

text \<open>A job with two files: a workbook without the \<^verbatim>\<open>hawb\<close> column, and a valid one.\<close>

definition world_two :: world where
  "world_two = put_file ''/pending/n.xlsx'' ''workbook without hawb'' world_a"

definition job_two :: ProcessingJob where
  "job_two = new_job ''j1'' [''/pending/n.xlsx'', ''/pending/a.xlsx'']"

text \<open>A workbook with the key \<^verbatim>\<open>A\<close> in two rows.\<close>

definition world_dups :: world where
  "world_dups = put_file ''/pending/d.xlsx'' ''workbook with A twice'' world0"

definition job_dups :: ProcessingJob where
  "job_dups = new_job ''j1'' [''/pending/d.xlsx'']"

text \<open>After workbook A has been processed: other bytes with the same parsed data arrive.\<close>

definition world_resaved :: world where
  "world_resaved = put_file ''/pending/c.xlsx'' ''workbook A, saved again'' (after_job ok_env job_a world_a)"

definition job_resaved :: ProcessingJob where
  "job_resaved = new_job ''j2'' [''/pending/c.xlsx'']"







text \<open>Two outsides for the retry controller: the schema cannot be created on the first
  attempt only, or on no attempt.\<close>

definition fail_once :: "nat \<Rightarrow> externals" where
  "fail_once a = (if a = 0 then no_schema_env else ok_env)"

definition always_fail :: "nat \<Rightarrow> externals" where
  "always_fail a = no_schema_env"

text \<open>A job processor that raises on every call.\<close>

definition raising :: processor where
  "raising attempt w job = (Inl ''connection lost'', job, w)"

subsection \<open>Reading the trace\<close>

text \<open>The lifecycle events: the assignments to a job and the sleeps of the retry controller.\<close>

fun is_lifecycle :: "event \<Rightarrow> bool" where
  "is_lifecycle (Sql q) = False"
| "is_lifecycle (ToSql t df) = False"
| "is_lifecycle (LogError m) = False"
| "is_lifecycle e = True"

definition lifecycle :: "event list \<Rightarrow> event list" where
  "lifecycle es = filter is_lifecycle es"

text \<open>The statuses assigned to the job \<open>jid\<close>, in order.\<close>

fun status_trace :: "string \<Rightarrow> event list \<Rightarrow> JobStatus list" where
  "status_trace jid [] = []"
| "status_trace jid (StatusSet j s # es) = (if j = jid then s # status_trace jid es else status_trace jid es)"
| "status_trace jid (e # es) = status_trace jid es"

text \<open>The durations of the sleeps, in order.\<close>

fun sleeps :: "event list \<Rightarrow> nat list" where
  "sleeps [] = []"
| "sleeps (Sleep d # es) = d # sleeps es"
| "sleeps (e # es) = sleeps es"

text \<open>How often \<^verbatim>\<open>started_at\<close> and \<^verbatim>\<open>completed_at\<close> of the job \<open>jid\<close> were assigned.\<close>

fun started_count :: "string \<Rightarrow> event list \<Rightarrow> nat" where
  "started_count jid [] = 0"
| "started_count jid (StartedAtSet j t # es) = (if j = jid then Suc (started_count jid es) else started_count jid es)"
| "started_count jid (e # es) = started_count jid es"

fun completed_count :: "string \<Rightarrow> event list \<Rightarrow> nat" where
  "completed_count jid [] = 0"
| "completed_count jid (CompletedAtSet j t # es) = (if j = jid then Suc (completed_count jid es) else completed_count jid es)"
| "completed_count jid (e # es) = completed_count jid es"

text \<open>The frames loaded into staging tables, in order.\<close>

fun staged_frames :: "event list \<Rightarrow> dataframe list" where
  "staged_frames [] = []"
| "staged_frames (ToSql t df # es) = df # staged_frames es"
| "staged_frames (e # es) = staged_frames es"

definition terminal :: "JobStatus \<Rightarrow> bool" where
  "terminal s = (s = COMPLETED \<or> s = FAILED \<or> s = CANCELLED)"

text \<open>
  A list of statuses respects terminal states when no status that follows a terminal
  one differs from it.
\<close>

fun terminal_is_final :: "JobStatus list \<Rightarrow> bool" where
  "terminal_is_final [] = True"
| "terminal_is_final (s # rest) = ((\<not> terminal s \<or> list_all (\<lambda>t. t = s) rest) \<and> terminal_is_final rest)"

text \<open>The events of one attempt that succeeds or fails at time \<open>t\<close>.\<close>

definition attempt_trace :: "string \<Rightarrow> nat \<Rightarrow> bool \<Rightarrow> event list" where
  "attempt_trace jid t ok =
     [StatusSet jid IN_PROGRESS, StartedAtSet jid t,
      StatusSet jid (if ok then COMPLETED else FAILED), CompletedAtSet jid t]"

text \<open>
  The lifecycle events of a run of the retry controller over the attempts \<open>atts\<close>, from
  what the outside decides: an attempt succeeds when the staging schema can be created.
\<close>

fun run_trace :: "string \<Rightarrow> (nat \<Rightarrow> externals) \<Rightarrow> int \<Rightarrow> nat list \<Rightarrow> nat \<Rightarrow> event list" where
  "run_trace jid envs m [] t = []"
| "run_trace jid envs m (a # rest) t =
     attempt_trace jid t (schema_ok (envs a)) @
     (if schema_ok (envs a) then []
      else if int a < m then Sleep (2 ^ a) # run_trace jid envs m rest (t + 2 ^ a)
      else run_trace jid envs m rest t)"

text \<open>The attempts that fail before the first one that succeeds.\<close>

definition failed_prefix :: "(nat \<Rightarrow> externals) \<Rightarrow> nat list \<Rightarrow> nat list" where
  "failed_prefix envs atts = takeWhile (\<lambda>a. \<not> schema_ok (envs a)) atts"

text \<open>The staging tables loaded, in order.\<close>

fun staged_tables :: "event list \<Rightarrow> string list" where
  "staged_tables [] = []"
| "staged_tables (ToSql t df # es) = t # staged_tables es"
| "staged_tables (e # es) = staged_tables es"

text \<open>
  Two states are alike for the lifecycle when the clock and the lifecycle events are the
  same: the database and file operations leave both alone.
\<close>

definition quiet :: "world \<Rightarrow> world \<Rightarrow> bool" where
  "quiet w w' = (clock w' = clock w \<and> lifecycle (events w') = lifecycle (events w))"

text \<open>The state after workbook A has been loaded into its staging table.\<close>

definition world_staged :: world where
  "world_staged = fst (load_excel_to_temp_table cfg0 ok_env world_a ''/pending/a.xlsx'' ''temp_job_j1_00000000'')"

definition empty_queue :: QueueProcessor where
  "empty_queue = \<lparr>job_queue = [], processed_jobs = [], is_running = True\<rparr>"

definition job_data0 :: job_data where
  "job_data0 = \<lparr>jd_id = ''email_7_0a1b2c3d'', jd_email_uid = 7, jd_subject = ''Track and Trace'',
                jd_sender = ''ops@example.org'', jd_date = 90, jd_files = [''/pending/a.xlsx'']\<rparr>"

subsection \<open>What happens after a file was processed\<close>

text \<open>
  \<open>later p0 w w'\<close>: the state \<open>w'\<close> is reached from \<open>w\<close> while the pipeline goes on
  without processing a file under the path \<open>p0\<close> again (the names under which
  \<^verbatim>\<open>email_monitor.py\<close> saves attachments are unique): the loop body of \<^verbatim>\<open>process_job\<close>
  runs on other files, the retry controller runs other jobs, the retention clean-up
  runs with a cutoff that keeps the entry of \<open>p0\<close>, and anything else happens that
  leaves the index alone (files arrive or are removed, time passes, a job ends, the
  database changes). An entry older than the retention period is pruned by the
  clean-up, and the index then knows nothing of the file.
\<close>

inductive later :: "string \<Rightarrow> world \<Rightarrow> world \<Rightarrow> bool" for p0 :: string and w :: world where
  same: "later p0 w w"
| other_file: "later p0 w w1 \<Longrightarrow> path \<noteq> p0 \<Longrightarrow> process_file cfg env job (w1, n, ps) path = (w2, n', ps')
         \<Longrightarrow> later p0 w w2"
| other_job: "later p0 w w1 \<Longrightarrow> p0 \<notin> set (files job) \<Longrightarrow> process_job_with_retry cfg envs w1 job = (ok, job', w2)
         \<Longrightarrow> later p0 w w2"
| cleanup: "later p0 w w1 \<Longrightarrow> map_of (processed_files_db w1) p0 = Some info
         \<Longrightarrow> clock w1 - retention_days \<le> processed_at info
         \<Longrightarrow> later p0 w (cleanup_old_files retention_days w1)"
| elsewhere: "later p0 w w1 \<Longrightarrow> processed_files_db w2 = processed_files_db w1 \<Longrightarrow> later p0 w w2"

text \<open>Two states with the same files and the same index.\<close>

definition kept :: "world \<Rightarrow> world \<Rightarrow> bool" where
  "kept w w' = (fs w' = fs w \<and> processed_files_db w' = processed_files_db w)"

section \<open>Lemmas\<close>

subsection \<open>The file and database operations leave the lifecycle alone\<close>

lemma quiet_refl: "quiet w w" by (simp add: quiet_def)
lemma quiet_trans: "quiet w w1 \<Longrightarrow> quiet w1 w2 \<Longrightarrow> quiet w w2" by (simp add: quiet_def)

lemma quiet_create_temp_schema: "create_temp_schema cfg env w = (w', r) \<Longrightarrow> quiet w w'"
  by (auto simp add: create_temp_schema_def quiet_def emit_def lifecycle_def split: if_splits)

lemma quiet_create_temp_table: "create_temp_table cfg env w t df = (w', r) \<Longrightarrow> quiet w w'"
  by (auto simp add: create_temp_table_def quiet_def emit_def lifecycle_def Let_def split: if_splits)

lemma quiet_load: "load_excel_to_temp_table cfg env w p t = (w', r) \<Longrightarrow> quiet w w'"
  by (auto simp add: load_excel_to_temp_table_def quiet_refl split: option.splits prod.splits bool.splits if_splits
      dest: quiet_create_temp_table)

lemma quiet_upsert: "upsert_data_to_target_table cfg env w t tgt = (w', r) \<Longrightarrow> quiet w w'"
  by (auto simp add: upsert_data_to_target_table_def quiet_def emit_def lifecycle_def Let_def split: option.splits if_splits)

lemma quiet_cleanup: "cleanup_temp_table cfg env w t = (w', r) \<Longrightarrow> quiet w w'"
  by (auto simp add: cleanup_temp_table_def quiet_def emit_def lifecycle_def Let_def split: if_splits)

lemma quiet_mark: "quiet w (mark_file_as_processed env w p df st)"
  by (simp add: mark_file_as_processed_def quiet_def Let_def split: option.splits)

lemma quiet_move: "move_to_processed env w p = (w', r) \<Longrightarrow> quiet w w'"
  by (auto simp add: move_to_processed_def quiet_def split: option.splits if_splits)

lemma quiet_uuid: "quiet w (w\<lparr>uuid_count := n\<rparr>)"
  by (simp add: quiet_def)

lemma quiet_process_file:
  assumes "process_file cfg env job (w, n, ps) p = (w', n', ps')"
  shows "quiet w w'"
proof (cases "process_excel_file env w p")
  case (Inl e)
  with assms show ?thesis by (simp add: process_file_def quiet_refl)
next
  case (Inr df)
  let ?t = "''temp_job_'' @ job_id job @ ''_'' @ uuid_hex env (uuid_count w)"
  let ?w1 = "w\<lparr>uuid_count := Suc (uuid_count w)\<rparr>"
  obtain w2 r2 where load: "load_excel_to_temp_table cfg env ?w1 p ?t = (w2, r2)" by force
  have q2: "quiet w w2" using quiet_trans [OF quiet_uuid quiet_load [OF load]] .
  show ?thesis
  proof (cases r2)
    case None
    with assms Inr load q2 show ?thesis by (simp add: process_file_def Let_def)
  next
    case (Some loaded)
    obtain w3 r3 where ups: "upsert_data_to_target_table cfg env w2 ?t None = (w3, r3)" by force
    have q3: "quiet w w3" using quiet_trans [OF q2 quiet_upsert [OF ups]] .
    show ?thesis
    proof (cases "r3 \<and> started_at job \<noteq> None")
      case False
      with assms Inr load Some ups q3 show ?thesis
        by (auto simp add: process_file_def Let_def split: option.splits bool.splits)
    next
      case True
      then obtain started where st: "started_at job = Some started" and r3: r3 by auto
      let ?stats = "\<lparr>records_processed = length (rows loaded), temp_table = ?t,
                      file_processing_time = int (clock w3) - int started\<rparr>"
      let ?w4 = "mark_file_as_processed env w3 p loaded ?stats"
      obtain w5 moved where mv: "move_to_processed env ?w4 p = (w5, moved)" by force
      obtain w6 cleaned where cl: "cleanup_temp_table cfg env w5 ?t = (w6, cleaned)" by force
      have "quiet w w6"
        using quiet_trans [OF quiet_trans [OF quiet_trans [OF q3 quiet_mark] quiet_move [OF mv]] quiet_cleanup [OF cl]] .
      moreover have "w' = w6"
        using assms Inr load Some ups r3 st mv cl by (simp add: process_file_def Let_def)
      ultimately show ?thesis by simp
    qed
  qed
qed

lemma quiet_files:
  "foldl (process_file cfg env job) (w, n, ps) paths = (w', n', ps') \<Longrightarrow> quiet w w'"
proof (induction paths arbitrary: w n ps)
  case Nil
  then show ?case by (simp add: quiet_refl)
next
  case (Cons p paths)
  obtain w1 n1 ps1 where step: "process_file cfg env job (w, n, ps) p = (w1, n1, ps1)"
    by (metis prod_cases3)
  with Cons.prems have "foldl (process_file cfg env job) (w1, n1, ps1) paths = (w', n', ps')" by simp
  from Cons.IH [OF this] quiet_process_file [OF step] show ?case by (rule quiet_trans [rotated])
qed

lemma length_process_file:
  "process_file cfg env job (w, n, ps) p = (w', n', ps') \<Longrightarrow> length ps \<le> length ps' \<and> length ps' \<le> Suc (length ps)"
  by (auto simp add: process_file_def Let_def split: sum.splits prod.splits option.splits bool.splits if_splits)

subsection \<open>One attempt\<close>

lemma length_files:
  "foldl (process_file cfg env job) (w, n, ps) paths = (w', n', ps') \<Longrightarrow>
     length ps \<le> length ps' \<and> length ps' \<le> length ps + length paths"
proof (induction paths arbitrary: w n ps)
  case Nil
  then show ?case by simp
next
  case (Cons p paths)
  obtain w1 n1 ps1 where step: "process_file cfg env job (w, n, ps) p = (w1, n1, ps1)"
    by (metis prod_cases3)
  with Cons.prems have "foldl (process_file cfg env job) (w1, n1, ps1) paths = (w', n', ps')" by simp
  from Cons.IH [OF this] length_process_file [OF step] show ?case by simp
qed

lemma lifecycle_append: "lifecycle (xs @ ys) = lifecycle xs @ lifecycle ys"
  by (simp add: lifecycle_def)

lemma process_job_result:
  assumes "process_job cfg env w job = (ok, job', w')"
  shows "ok = schema_ok env"
    and "status job' = (if schema_ok env then COMPLETED else FAILED)"
    and "started_at job' = Some (clock w)"
    and "completed_at job' = Some (clock w)"
    and "job_id job' = job_id job"
    and "max_retries job' = max_retries job"
    and "retry_count job' = retry_count job"
    and "files job' = files job"
    and "clock w' = clock w"
    and "lifecycle (events w') = lifecycle (events w) @ attempt_trace (job_id job) (clock w) (schema_ok env)"
proof -
  let ?w1 = "emit [StatusSet (job_id job) IN_PROGRESS, StartedAtSet (job_id job) (clock w)] w"
  let ?job1 = "job\<lparr>status := IN_PROGRESS, started_at := Some (clock w)\<rparr>"
  obtain w2 r where sch: "create_temp_schema cfg env ?w1 = (w2, r)" by force
  have r: "r = schema_ok env" using sch by (auto simp add: create_temp_schema_def split: if_splits)
  have q2: "quiet ?w1 w2" using quiet_create_temp_schema [OF sch] .
  have c1: "clock ?w1 = clock w" by (simp add: emit_def)
  have l1: "lifecycle (events ?w1) = lifecycle (events w) @ [StatusSet (job_id job) IN_PROGRESS, StartedAtSet (job_id job) (clock w)]"
    by (simp add: emit_def lifecycle_def)
  obtain w3 n3 ps3 where fl: "foldl (process_file cfg env ?job1) (w2, 0, []) (files ?job1) = (w3, n3, ps3)"
    by (metis prod_cases3)
  have q3: "quiet w2 w3" using quiet_files [OF fl] .
  let ?w4 = "if ps3 \<noteq> [] then mark_email_as_read env w3 (email_uid ?job1) else w3"
  have q4: "quiet w3 ?w4" by (simp add: quiet_def mark_email_as_read_def)
  have q: "quiet ?w1 ?w4" using quiet_trans [OF quiet_trans [OF q2 q3] q4] .
  show "ok = schema_ok env"
    using assms sch r fl by (auto simp add: process_job_def Let_def split: if_splits)
  show "status job' = (if schema_ok env then COMPLETED else FAILED)"
    using assms sch r fl by (auto simp add: process_job_def Let_def split: if_splits)
  show "started_at job' = Some (clock w)"
    using assms sch r fl by (auto simp add: process_job_def Let_def split: if_splits)
  show "completed_at job' = Some (clock w)"
    using assms sch r fl q q2 c1 by (auto simp add: process_job_def Let_def quiet_def split: if_splits)
  show "job_id job' = job_id job"
    using assms sch r fl by (auto simp add: process_job_def Let_def split: if_splits)
  show "max_retries job' = max_retries job"
    using assms sch r fl by (auto simp add: process_job_def Let_def split: if_splits)
  show "retry_count job' = retry_count job"
    using assms sch r fl by (auto simp add: process_job_def Let_def split: if_splits)
  show "files job' = files job"
    using assms sch r fl by (auto simp add: process_job_def Let_def split: if_splits)
  show "clock w' = clock w"
    using assms sch r fl q q2 c1 by (auto simp add: process_job_def Let_def quiet_def emit_def split: if_splits)
  show "lifecycle (events w') = lifecycle (events w) @ attempt_trace (job_id job) (clock w) (schema_ok env)"
  proof (cases "schema_ok env")
    case True
    then have "w' = emit [StatusSet (job_id job) COMPLETED, CompletedAtSet (job_id job) (clock ?w4)] ?w4"
      using assms sch r fl by (auto simp add: process_job_def Let_def split: if_splits)
    then have "lifecycle (events w') = lifecycle (events ?w4) @ [StatusSet (job_id job) COMPLETED, CompletedAtSet (job_id job) (clock ?w4)]"
      by (simp add: emit_def lifecycle_def)
    with q l1 c1 True show ?thesis by (simp add: quiet_def attempt_trace_def)
  next
    case False
    then have "w' = emit [StatusSet (job_id job) FAILED, CompletedAtSet (job_id job) (clock w2)] w2"
      using assms sch r by (auto simp add: process_job_def Let_def split: if_splits)
    then have "lifecycle (events w') = lifecycle (events w2) @ [StatusSet (job_id job) FAILED, CompletedAtSet (job_id job) (clock w2)]"
      by (simp add: emit_def lifecycle_def)
    with q2 l1 c1 False show ?thesis by (simp add: quiet_def attempt_trace_def)
  qed
qed

text \<open>A call that succeeds leaves the error message of an earlier call.\<close>

lemma process_job_error_message:
  assumes "process_job cfg env w job = (ok, job', w')"
  shows "error_message job' =
           (if schema_ok env then error_message job else Some ''Failed to create temporary schema'')"
proof -
  let ?w1 = "emit [StatusSet (job_id job) IN_PROGRESS, StartedAtSet (job_id job) (clock w)] w"
  obtain w2 r where sch: "create_temp_schema cfg env ?w1 = (w2, r)" by force
  have r: "r = schema_ok env" using sch by (auto simp add: create_temp_schema_def split: if_splits)
  show ?thesis using assms sch r
    by (auto simp add: process_job_def Let_def split: prod.splits)
qed

subsection \<open>The retry controller\<close>

lemma job_processor_result:
  assumes "job_processor cfg envs a w job = (r, job', w')"
  shows "r = Inr (schema_ok (envs a))"
    and "status job' = (if schema_ok (envs a) then COMPLETED else FAILED)"
    and "started_at job' = Some (clock w)"
    and "completed_at job' = Some (clock w)"
    and "job_id job' = job_id job"
    and "max_retries job' = max_retries job"
    and "retry_count job' = retry_count job"
    and "clock w' = clock w"
    and "lifecycle (events w') = lifecycle (events w) @ attempt_trace (job_id job) (clock w) (schema_ok (envs a))"
proof -
  obtain ok where pj: "process_job cfg (envs a) w job = (ok, job', w')" and r: "r = Inr ok"
    using assms by (auto simp add: job_processor_def split: prod.splits)
  note res = process_job_result [OF pj]
  show "r = Inr (schema_ok (envs a))" using r res(1) by simp
  show "status job' = (if schema_ok (envs a) then COMPLETED else FAILED)" using res(2) .
  show "started_at job' = Some (clock w)" using res(3) .
  show "completed_at job' = Some (clock w)" using res(4) .
  show "job_id job' = job_id job" using res(5) .
  show "max_retries job' = max_retries job" using res(6) .
  show "retry_count job' = retry_count job" using res(7) .
  show "clock w' = clock w" using res(9) .
  show "lifecycle (events w') = lifecycle (events w) @ attempt_trace (job_id job) (clock w) (schema_ok (envs a))"
    using res(10) .
qed

lemma retry_attempts_trace:
  "retry_attempts (job_processor cfg envs) atts w job = (ok, job', w') \<Longrightarrow>
     lifecycle (events w') = lifecycle (events w) @ run_trace (job_id job) envs (max_retries job) atts (clock w)
     \<and> ok = list_ex (\<lambda>a. schema_ok (envs a)) atts
     \<and> job_id job' = job_id job \<and> max_retries job' = max_retries job
     \<and> (atts = [] \<longrightarrow> job' = job \<and> w' = w)
     \<and> (atts \<noteq> [] \<longrightarrow> status job' = (if ok then COMPLETED else FAILED)
                        \<and> completed_at job' \<noteq> None \<and> started_at job' \<noteq> None)"
proof (induction atts arbitrary: w job)
  case Nil
  then show ?case by simp
next
  case (Cons a rest)
  let ?job1 = "if a > 0 then job\<lparr>retry_count := int a\<rparr> else job"
  obtain r job2 w2 where step: "job_processor cfg envs a w ?job1 = (r, job2, w2)"
    by (metis prod_cases3)
  note res = job_processor_result [OF step]
  have id1: "job_id ?job1 = job_id job" and mr1: "max_retries ?job1 = max_retries job" by simp_all
  show ?case
  proof (cases "schema_ok (envs a)")
    case True
    with Cons.prems step res(1) have "ok" "job' = job2" "w' = w2" by (simp_all add: Let_def)
    with True res id1 mr1 show ?thesis by (simp del: retry_attempts.simps)
  next
    case False
    let ?w3 = "if int a < max_retries job2 then sleep (2 ^ a) w2 else w2"
    have rec: "retry_attempts (job_processor cfg envs) rest ?w3 job2 = (ok, job', w')"
      using Cons.prems step res(1) False by (simp add: Let_def split: if_splits)
    note ih = Cons.IH [OF rec]
    have l3: "lifecycle (events ?w3) = lifecycle (events w) @ attempt_trace (job_id job) (clock w) False
                @ (if int a < max_retries job then [Sleep (2 ^ a)] else [])"
      using res(9) res(6) False id1 mr1 by (simp add: sleep_def emit_def lifecycle_def)
    have c3: "clock ?w3 = (if int a < max_retries job then clock w + 2 ^ a else clock w)"
      using res(8) res(6) mr1 by (simp add: sleep_def emit_def)
    have j2: "job_id job2 = job_id job" "max_retries job2 = max_retries job"
      using res(5) res(6) id1 mr1 by simp_all
    show ?thesis
    proof (cases "rest = []")
      case True
      with ih have "job' = job2" "w' = ?w3" "\<not> ok" by simp_all
      with True False l3 c3 j2 res(2) res(3) res(4) show ?thesis
        by (simp del: retry_attempts.simps)
    next
      case nonempty: False
      with ih False l3 c3 j2 show ?thesis
        by (simp del: retry_attempts.simps)
    qed
  qed
qed

lemma status_trace_append: "status_trace jid (xs @ ys) = status_trace jid xs @ status_trace jid ys"
  by (induction jid xs rule: status_trace.induct) simp_all

lemma sleeps_append: "sleeps (xs @ ys) = sleeps xs @ sleeps ys"
  by (induction xs rule: sleeps.induct) simp_all

lemma started_count_append: "started_count jid (xs @ ys) = started_count jid xs + started_count jid ys"
  by (induction jid xs rule: started_count.induct) simp_all

lemma completed_count_append: "completed_count jid (xs @ ys) = completed_count jid xs + completed_count jid ys"
  by (induction jid xs rule: completed_count.induct) simp_all

lemma status_trace_lifecycle: "status_trace jid (lifecycle es) = status_trace jid es"
  by (induction jid es rule: status_trace.induct) (simp_all add: lifecycle_def)

lemma sleeps_lifecycle: "sleeps (lifecycle es) = sleeps es"
  by (induction es rule: sleeps.induct) (simp_all add: lifecycle_def)

lemma started_count_lifecycle: "started_count jid (lifecycle es) = started_count jid es"
  by (induction jid es rule: started_count.induct) (simp_all add: lifecycle_def)

lemma completed_count_lifecycle: "completed_count jid (lifecycle es) = completed_count jid es"
  by (induction jid es rule: completed_count.induct) (simp_all add: lifecycle_def)

lemma status_trace_run:
  "status_trace jid (run_trace jid envs m atts t) =
     concat (replicate (length (failed_prefix envs atts)) [IN_PROGRESS, FAILED]) @
     (if length (failed_prefix envs atts) < length atts then [IN_PROGRESS, COMPLETED] else [])"
  by (induction atts arbitrary: t) (simp_all add: failed_prefix_def attempt_trace_def)

lemma sleeps_run:
  "sleeps (run_trace jid envs m atts t) =
     map (\<lambda>a. 2 ^ a) (filter (\<lambda>a. int a < m) (failed_prefix envs atts))"
  by (induction atts arbitrary: t) (simp_all add: failed_prefix_def attempt_trace_def)

lemma started_count_run:
  "started_count jid (run_trace jid envs m atts t) = min (Suc (length (failed_prefix envs atts))) (length atts)"
  by (induction atts arbitrary: t) (simp_all add: failed_prefix_def attempt_trace_def)

lemma completed_count_run:
  "completed_count jid (run_trace jid envs m atts t) = min (Suc (length (failed_prefix envs atts))) (length atts)"
  by (induction atts arbitrary: t) (simp_all add: failed_prefix_def attempt_trace_def)

lemma list_ex_failed_prefix:
  "list_ex (\<lambda>a. schema_ok (envs a)) atts = (length (failed_prefix envs atts) < length atts)"
  by (induction atts) (simp_all add: failed_prefix_def)

lemma failed_prefix_upt:
  "failed_prefix envs [0 ..< n] = [0 ..< length (failed_prefix envs [0 ..< n])]"
proof -
  let ?k = "length (failed_prefix envs [0 ..< n])"
  have le: "?k \<le> n" using length_takeWhile_le [of "\<lambda>a. \<not> schema_ok (envs a)" "[0 ..< n]"]
    by (simp add: failed_prefix_def)
  have "failed_prefix envs [0 ..< n] = take ?k [0 ..< n]"
    unfolding failed_prefix_def by (rule takeWhile_eq_take)
  also have "\<dots> = [0 ..< ?k]" using le by (simp add: min_def)
  finally show ?thesis .
qed

lemma filter_less_upt: "filter (\<lambda>a. a < j) [0 ..< k] = [0 ..< min k j]"
proof (induction k)
  case 0
  then show ?case by simp
next
  case (Suc k)
  show ?case
  proof (cases "k < j")
    case True
    with Suc show ?thesis by (simp add: min_def)
  next
    case False
    with Suc show ?thesis by (simp add: min_def)
  qed
qed

lemma failed_prefix_all:
  "(\<forall>a < n. \<not> schema_ok (envs a)) \<Longrightarrow> failed_prefix envs [0 ..< n] = [0 ..< n]"
  by (simp add: failed_prefix_def)

lemma failed_prefix_first:
  assumes "k < n" "\<forall>a < k. \<not> schema_ok (envs a)" "schema_ok (envs k)"
  shows "failed_prefix envs [0 ..< n] = [0 ..< k]"
proof -
  have "[0 ..< n] = [0 ..< k] @ k # [Suc k ..< n]"
    using assms(1) upt_add_eq_append [of 0 k "n - k"] by (simp add: upt_conv_Cons)
  then show ?thesis using assms(2,3) by (simp add: failed_prefix_def takeWhile_append)
qed

lemma last_run_trace:
  "i < n \<Longrightarrow> int n = m + 1 \<Longrightarrow> \<exists>t'. last (run_trace jid envs m [i ..< n] t) = CompletedAtSet jid t'"
proof (induction "n - i" arbitrary: i t)
  case 0
  then show ?case by simp
next
  case (Suc d)
  have upt: "[i ..< n] = i # [Suc i ..< n]" using Suc.prems(1) by (simp add: upt_conv_Cons)
  have unfold: "run_trace jid envs m [i ..< n] t =
     attempt_trace jid t (schema_ok (envs i)) @
     (if schema_ok (envs i) then []
      else if int i < m then Sleep (2 ^ i) # run_trace jid envs m [Suc i ..< n] (t + 2 ^ i)
      else run_trace jid envs m [Suc i ..< n] t)"
    by (subst upt) simp
  show ?case
  proof (cases "schema_ok (envs i)")
    case True
    then show ?thesis unfolding unfold by (simp add: attempt_trace_def)
  next
    case False
    show ?thesis
    proof (cases "int i < m")
      case True
      then have lt: "Suc i < n" using Suc.prems(2) by linarith
      have "d = n - Suc i" using Suc.hyps(2) by simp
      from Suc.hyps(1) [OF this lt Suc.prems(2)] obtain t' where
        l: "last (run_trace jid envs m [Suc i ..< n] (t + 2 ^ i)) = CompletedAtSet jid t'" by blast
      have "[Suc i ..< n] = Suc i # [Suc (Suc i) ..< n]" using lt by (simp add: upt_conv_Cons)
      then have ne: "run_trace jid envs m [Suc i ..< n] (t + 2 ^ i) \<noteq> []"
        by (simp add: attempt_trace_def)
      show ?thesis unfolding unfold using False True l ne by (simp add: attempt_trace_def)
    next
      case notlt: False
      then have "Suc i = n" using Suc.prems by linarith
      then have "run_trace jid envs m [Suc i ..< n] t = []" by simp
      then show ?thesis unfolding unfold using False notlt by (simp add: attempt_trace_def)
    qed
  qed
qed

lemma retry_count_run:
  "retry_attempts (job_processor cfg envs) atts w job = (ok, job', w') \<Longrightarrow>
     retry_count job' =
       foldl (\<lambda>rc a. if a > 0 then int a else rc) (retry_count job)
         (take (Suc (length (failed_prefix envs atts))) atts)"
proof (induction atts arbitrary: w job)
  case Nil
  then show ?case by simp
next
  case (Cons a rest)
  let ?job1 = "if a > 0 then job\<lparr>retry_count := int a\<rparr> else job"
  obtain r job2 w2 where step: "job_processor cfg envs a w ?job1 = (r, job2, w2)"
    by (metis prod_cases3)
  note res = job_processor_result [OF step]
  have rc2: "retry_count job2 = (if a > 0 then int a else retry_count job)" using res(7) by simp
  show ?case
  proof (cases "schema_ok (envs a)")
    case True
    with Cons.prems step res(1) have "job' = job2" by (simp add: Let_def)
    with True rc2 show ?thesis by (simp add: failed_prefix_def del: retry_attempts.simps)
  next
    case False
    let ?w3 = "if int a < max_retries job2 then sleep (2 ^ a) w2 else w2"
    have rec: "retry_attempts (job_processor cfg envs) rest ?w3 job2 = (ok, job', w')"
      using Cons.prems step res(1) False by (simp add: Let_def split: if_splits)
    from Cons.IH [OF rec] False rc2 show ?thesis
      by (simp add: failed_prefix_def del: retry_attempts.simps)
  qed
qed

lemma foldl_retry_count_upt:
  "foldl (\<lambda>rc a. if a > 0 then int a else rc) rc [0 ..< r] = (if r \<le> 1 then rc else int (r - 1))"
  by (induction r) auto

lemma retry_run:
  assumes run: "process_job_with_retry cfg envs w job = (ok, job', w')"
  defines "n \<equiv> nat (max_retries job + 1)"
  defines "k \<equiv> length (failed_prefix envs [0 ..< nat (max_retries job + 1)])"
  shows "lifecycle (events w') = lifecycle (events w) @ run_trace (job_id job) envs (max_retries job) [0 ..< n] (clock w)"
    and "ok = (k < n)"
    and "k \<le> n"
    and "status_trace (job_id job) (events w') = status_trace (job_id job) (events w) @
           concat (replicate k [IN_PROGRESS, FAILED]) @ (if ok then [IN_PROGRESS, COMPLETED] else [])"
    and "sleeps (events w') = sleeps (events w) @ map (\<lambda>a. 2 ^ a) [0 ..< min k (nat (max_retries job))]"
    and "started_count (job_id job) (events w') = started_count (job_id job) (events w) + min (Suc k) n"
    and "completed_count (job_id job) (events w') = completed_count (job_id job) (events w) + min (Suc k) n"
    and "0 < n \<Longrightarrow> status job' = (if ok then COMPLETED else FAILED) \<and> completed_at job' \<noteq> None \<and> started_at job' \<noteq> None"
    and "n = 0 \<Longrightarrow> job' = job \<and> w' = w"
    and "0 < n \<Longrightarrow> retry_count job' = (if min (Suc k) n \<le> 1 then retry_count job else int (min (Suc k) n - 1))"
    and "0 < n \<Longrightarrow> \<exists>t. last (lifecycle (events w')) = CompletedAtSet (job_id job) t"
proof -
  have ra: "retry_attempts (job_processor cfg envs) [0 ..< n] w job = (ok, job', w')"
    using run by (simp add: process_job_with_retry_def process_job_with_retry_by_def n_def)
  note tr = retry_attempts_trace [OF ra]
  have k: "k = length (failed_prefix envs [0 ..< n])" by (simp add: k_def n_def)
  have fp: "failed_prefix envs [0 ..< n] = [0 ..< k]" unfolding k by (rule failed_prefix_upt)
  show l: "lifecycle (events w') = lifecycle (events w) @ run_trace (job_id job) envs (max_retries job) [0 ..< n] (clock w)"
    using tr by simp
  show ok: "ok = (k < n)" using tr list_ex_failed_prefix [of envs "[0 ..< n]"] k by simp
  show kn: "k \<le> n" using length_takeWhile_le [of "\<lambda>a. \<not> schema_ok (envs a)" "[0 ..< n]"] k
    by (simp add: failed_prefix_def)
  have "status_trace (job_id job) (lifecycle (events w')) =
          status_trace (job_id job) (lifecycle (events w)) @
          status_trace (job_id job) (run_trace (job_id job) envs (max_retries job) [0 ..< n] (clock w))"
    unfolding l by (rule status_trace_append)
  then show "status_trace (job_id job) (events w') = status_trace (job_id job) (events w) @
           concat (replicate k [IN_PROGRESS, FAILED]) @ (if ok then [IN_PROGRESS, COMPLETED] else [])"
    using ok k by (simp add: status_trace_lifecycle status_trace_run)
  have "sleeps (lifecycle (events w')) =
          sleeps (lifecycle (events w)) @ sleeps (run_trace (job_id job) envs (max_retries job) [0 ..< n] (clock w))"
    unfolding l by (rule sleeps_append)
  moreover have "filter (\<lambda>a. int a < max_retries job) [0 ..< k] = [0 ..< min k (nat (max_retries job))]"
  proof -
    have "(\<lambda>a. int a < max_retries job) = (\<lambda>a. a < nat (max_retries job))" by (rule ext) linarith
    then show ?thesis by (simp add: filter_less_upt)
  qed
  ultimately show "sleeps (events w') = sleeps (events w) @ map (\<lambda>a. 2 ^ a) [0 ..< min k (nat (max_retries job))]"
    using fp by (simp add: sleeps_lifecycle sleeps_run)
  have "started_count (job_id job) (lifecycle (events w')) =
          started_count (job_id job) (lifecycle (events w)) +
          started_count (job_id job) (run_trace (job_id job) envs (max_retries job) [0 ..< n] (clock w))"
    unfolding l by (rule started_count_append)
  then show "started_count (job_id job) (events w') = started_count (job_id job) (events w) + min (Suc k) n"
    using k by (simp add: started_count_lifecycle started_count_run)
  have "completed_count (job_id job) (lifecycle (events w')) =
          completed_count (job_id job) (lifecycle (events w)) +
          completed_count (job_id job) (run_trace (job_id job) envs (max_retries job) [0 ..< n] (clock w))"
    unfolding l by (rule completed_count_append)
  then show "completed_count (job_id job) (events w') = completed_count (job_id job) (events w) + min (Suc k) n"
    using k by (simp add: completed_count_lifecycle completed_count_run)
  show "0 < n \<Longrightarrow> status job' = (if ok then COMPLETED else FAILED) \<and> completed_at job' \<noteq> None \<and> started_at job' \<noteq> None"
    using tr by simp
  show "n = 0 \<Longrightarrow> job' = job \<and> w' = w" using tr by simp
  show "0 < n \<Longrightarrow> retry_count job' = (if min (Suc k) n \<le> 1 then retry_count job else int (min (Suc k) n - 1))"
  proof -
    have "take (Suc k) [0 ..< n] = [0 ..< min (Suc k) n]" by (simp add: min_def)
    then show ?thesis using retry_count_run [OF ra] k foldl_retry_count_upt by simp
  qed
  show "0 < n \<Longrightarrow> \<exists>t. last (lifecycle (events w')) = CompletedAtSet (job_id job) t"
  proof -
    assume pos: "0 < n"
    have "int n = max_retries job + 1" using pos by (simp add: n_def)
    from last_run_trace [OF pos this] obtain t where
      t: "last (run_trace (job_id job) envs (max_retries job) [0 ..< n] (clock w)) = CompletedAtSet (job_id job) t"
      by blast
    have "[0 ..< n] = 0 # [Suc 0 ..< n]" using pos by (simp add: upt_conv_Cons)
    then have "run_trace (job_id job) envs (max_retries job) [0 ..< n] (clock w) \<noteq> []"
      by (simp add: attempt_trace_def)
    with t l show ?thesis by simp
  qed
qed

subsection \<open>The examples of the retry controller\<close>

lemma failed_prefix_fail_once:
  "failed_prefix fail_once [0 ..< 4] = [0]"
  by code_simp

lemma failed_prefix_always_fail:
  "failed_prefix always_fail [0 ..< 4] = [0, 1, 2, 3]"
  by code_simp

lemma job_a_fields:
  "job_id job_a = ''j1''" "max_retries job_a = 3" "retry_count job_a = 0"
  "status job_a = PENDING" "completed_at job_a = None"
  by (simp_all add: job_a_def new_job_def)

lemma world_a_events: "events world_a = []"
  by (simp add: world_a_def put_file_def world0_def)

lemma upt_4: "[0 ..< 4] = [0, 1, 2, 3::nat]" by code_simp

text \<open>
  The handler of the retry controller, reached when the job processor raises: it sleeps
  after every attempt but the last, and marks the job FAILED once, after the last.
\<close>

lemma controller_marks_failed_once:
  "(case process_job_with_retry_by raising world_a job_a of
      (ok, job', w') \<Rightarrow>
        \<not> ok \<and> status job' = FAILED \<and> error_message job' = Some ''connection lost''
      \<and> completed_at job' = Some 107
      \<and> events w' = [Sleep 1, Sleep 2, Sleep 4, StatusSet ''j1'' FAILED, CompletedAtSet ''j1'' 107])"
  by code_simp

lemma terminal_is_final_retries:
  "terminal_is_final (concat (replicate k [IN_PROGRESS, FAILED]) @ (if ok then [IN_PROGRESS, COMPLETED] else []))
     = (k = 0 \<or> (k = 1 \<and> \<not> ok))"
proof (cases k)
  case 0
  then show ?thesis by (simp add: terminal_def)
next
  case (Suc j)
  show ?thesis
  proof (cases j)
    case 0
    with Suc show ?thesis by (simp add: terminal_def)
  next
    case (Suc i)
    with \<open>k = Suc j\<close> show ?thesis by (simp add: terminal_def)
  qed
qed

lemma cancel_job_not_pending:
  "map_of (processed_jobs qp) jid = Some j \<Longrightarrow> status j \<noteq> PENDING \<Longrightarrow> cancel_job w qp jid = (False, qp)"
  by (simp add: cancel_job_def)

lemma cancel_queued_job:
  "map_of (processed_jobs qp) (jd_id jd) = None \<Longrightarrow>
     cancel_job w' (snd (add_job w qp jd)) (jd_id jd) = (False, snd (add_job w qp jd))"
  by (simp add: add_job_def cancel_job_def Let_def)

subsection \<open>Files\<close>

lemma process_job_stats:
  assumes "process_job cfg env w job = (ok, job', w')" and "schema_ok env"
  shows "\<exists>st. processing_stats job' = Some st
            \<and> int (processed_files st) + failed_files st = int (length (files job))
            \<and> 0 \<le> failed_files st"
proof -
  let ?w1 = "emit [StatusSet (job_id job) IN_PROGRESS, StartedAtSet (job_id job) (clock w)] w"
  let ?job1 = "job\<lparr>status := IN_PROGRESS, started_at := Some (clock w)\<rparr>"
  obtain w2 r where sch: "create_temp_schema cfg env ?w1 = (w2, r)" by force
  have r: "r" using sch assms(2) by (auto simp add: create_temp_schema_def split: if_splits)
  obtain w3 n3 ps3 where fl: "foldl (process_file cfg env ?job1) (w2, 0, []) (files ?job1) = (w3, n3, ps3)"
    by (metis prod_cases3)
  have len: "length ps3 \<le> length (files job)" using length_files [OF fl] by simp
  have "processing_stats job' = Some \<lparr>total_records = n3, processed_files = length ps3,
            failed_files = int (length (files job)) - int (length ps3),
            processing_time = int (clock (if ps3 \<noteq> [] then mark_email_as_read env w3 (email_uid ?job1) else w3)) - int (clock w)\<rparr>"
    using assms(1) sch r fl by (auto simp add: process_job_def Let_def)
  then show ?thesis using len by simp
qed

lemma job_completed_iff_schema_created:
  assumes "process_job cfg env w job = (ok, job', w')"
  shows "ok = schema_ok env"
    and "status job' = (if schema_ok env then COMPLETED else FAILED)"
    and "schema_ok env \<Longrightarrow>
           \<exists>st. processing_stats job' = Some st
              \<and> int (processed_files st) + failed_files st = int (length (files job))
              \<and> 0 \<le> failed_files st"
  using process_job_result(1,2) [OF assms] process_job_stats [OF assms] by blast+

text \<open>With a database that rejects every upsert, no file is counted as processed.\<close>

lemma upsert_rejected:
  "\<not> upsert_ok env t \<Longrightarrow> upsert_data_to_target_table cfg env w t tgt = (w, False)"
  by (simp add: upsert_data_to_target_table_def Let_def split: option.splits)

lemma process_file_without_upsert:
  assumes rejected: "\<forall>t. \<not> upsert_ok env t"
      and run: "process_file cfg env job (w, n, ps) p = (w', n', ps')"
  shows "n' = n \<and> ps' = ps \<and> processed_files_db w' = processed_files_db w \<and> fs w' = fs w"
proof (cases "process_excel_file env w p")
  case (Inl e)
  with run show ?thesis by (simp add: process_file_def)
next
  case (Inr df)
  let ?t = "''temp_job_'' @ job_id job @ ''_'' @ uuid_hex env (uuid_count w)"
  let ?w1 = "w\<lparr>uuid_count := Suc (uuid_count w)\<rparr>"
  obtain w2 r2 where load: "load_excel_to_temp_table cfg env ?w1 p ?t = (w2, r2)" by force
  have k: "processed_files_db w2 = processed_files_db w \<and> fs w2 = fs w"
    using load
    by (auto simp add: load_excel_to_temp_table_def create_temp_table_def emit_def Let_def
             split: option.splits if_splits prod.splits bool.splits)
  have ups: "upsert_data_to_target_table cfg env w2 ?t None = (w2, False)"
    using rejected upsert_rejected by simp
  have "w' = w2 \<and> n' = n \<and> ps' = ps"
    using run Inr load ups by (cases r2) (auto simp add: process_file_def Let_def)
  then show ?thesis using k by simp
qed

lemma files_without_upsert:
  "\<forall>t. \<not> upsert_ok env t \<Longrightarrow> foldl (process_file cfg env job) (w, n, ps) paths = (w', n', ps') \<Longrightarrow>
   n' = n \<and> ps' = ps \<and> processed_files_db w' = processed_files_db w \<and> fs w' = fs w"
proof (induction paths arbitrary: w)
  case Nil
  then show ?case by simp
next
  case (Cons p paths)
  obtain w1 n1 ps1 where step: "process_file cfg env job (w, n, ps) p = (w1, n1, ps1)"
    by (metis prod_cases3)
  note s = process_file_without_upsert [OF Cons.prems(1) step]
  with Cons.prems(2) step have "foldl (process_file cfg env job) (w1, n, ps) paths = (w', n', ps')" by simp
  from Cons.IH [OF Cons.prems(1) this] s show ?case by simp
qed

lemma no_file_processed_without_upsert:
  assumes rejected: "\<forall>t. \<not> upsert_ok env t"
      and run: "process_job cfg env w job = (ok, job', w')"
      and schema: "schema_ok env"
  shows "ok \<and> status job' = COMPLETED
       \<and> (\<exists>st. processing_stats job' = Some st \<and> total_records st = 0 \<and> processed_files st = 0
               \<and> failed_files st = int (length (files job)))
       \<and> processed_files_db w' = processed_files_db w \<and> fs w' = fs w"
proof -
  let ?w1 = "emit [StatusSet (job_id job) IN_PROGRESS, StartedAtSet (job_id job) (clock w)] w"
  let ?job1 = "job\<lparr>status := IN_PROGRESS, started_at := Some (clock w)\<rparr>"
  obtain w2 r where sch: "create_temp_schema cfg env ?w1 = (w2, r)" by force
  have r: "r" using sch schema by (auto simp add: create_temp_schema_def split: if_splits)
  have k2: "processed_files_db w2 = processed_files_db w \<and> fs w2 = fs w"
    using sch by (auto simp add: create_temp_schema_def emit_def split: if_splits)
  obtain w3 n3 ps3 where fl: "foldl (process_file cfg env ?job1) (w2, 0, []) (files ?job1) = (w3, n3, ps3)"
    by (metis prod_cases3)
  note f = files_without_upsert [OF rejected fl]
  have e3: "processed_files_db w' = processed_files_db w3 \<and> fs w' = fs w3"
    using run sch r fl f by (auto simp add: process_job_def Let_def emit_def)
  have "processing_stats job' = Some \<lparr>total_records = 0, processed_files = 0,
            failed_files = int (length (files job)), processing_time = int (clock w3) - int (clock w)\<rparr>"
    using run sch r fl f by (auto simp add: process_job_def Let_def)
  then show ?thesis using process_job_result(1,2) [OF run] schema e3 f k2 by simp
qed



text \<open>What \<^verbatim>\<open>drop_duplicates\<close> keeps has one row for each key.\<close>

lemma drop_dup_rows_keys:
  "distinct (map (\<lambda>r. cell_at df r key) (drop_dup_rows df key seen rs))
   \<and> set (map (\<lambda>r. cell_at df r key) (drop_dup_rows df key seen rs)) \<inter> set seen = {}"
proof (induction rs arbitrary: seen)
  case Nil
  then show ?case by simp
next
  case (Cons r rs)
  show ?case
  proof (cases "cell_at df r key \<in> set seen")
    case True
    then show ?thesis using Cons.IH [of seen] by simp
  next
    case False
    let ?ks = "map (\<lambda>r. cell_at df r key) (drop_dup_rows df key (cell_at df r key # seen) rs)"
    have ih: "distinct ?ks" "set ?ks \<inter> set (cell_at df r key # seen) = {}"
      using Cons.IH [of "cell_at df r key # seen"] by simp_all
    have "cell_at df r key \<notin> set ?ks" using ih(2) by auto
    moreover have "set ?ks \<inter> set seen = {}" using ih(2) by auto
    ultimately show ?thesis using False ih(1) by simp
  qed
qed

lemma drop_duplicates_distinct:
  "distinct (map (\<lambda>r. cell_at df r key) (rows (drop_duplicates df key)))"
  using drop_dup_rows_keys [of df key "[]" "rows df"] by (simp add: drop_duplicates_def)

text \<open>
  A file whose upsert fails keeps its staging table: the loop body returns before
  \<^verbatim>\<open>cleanup_temp_table\<close>.
\<close>

lemma load_creates_table:
  assumes "load_excel_to_temp_table cfg env w path t = (w', Some loaded)"
  shows "map_of (temp_tables w') t = Some loaded"
  using assms
  by (auto simp add: load_excel_to_temp_table_def create_temp_table_def emit_def Let_def update_conv'
      split: option.splits if_splits prod.splits bool.splits)

lemma upsert_failure_changes_nothing:
  "upsert_data_to_target_table cfg env w t tgt = (w', False) \<Longrightarrow> w' = w"
  by (auto simp add: upsert_data_to_target_table_def Let_def split: option.splits if_splits)

lemma upsert_failure_keeps_staging_table:
  assumes valid: "process_excel_file env w path = Inr df"
      and loaded: "load_excel_to_temp_table cfg env (w\<lparr>uuid_count := Suc (uuid_count w)\<rparr>) path
                     (''temp_job_'' @ job_id job @ ''_'' @ uuid_hex env (uuid_count w)) = (w2, Some loaded_df)"
      and failed: "upsert_data_to_target_table cfg env w2
                     (''temp_job_'' @ job_id job @ ''_'' @ uuid_hex env (uuid_count w)) None = (w3, False)"
  shows "process_file cfg env job (w, n, ps) path = (w2, n, ps)
       \<and> map_of (temp_tables w2) (''temp_job_'' @ job_id job @ ''_'' @ uuid_hex env (uuid_count w)) = Some loaded_df"
proof -
  have "w3 = w2" using upsert_failure_changes_nothing [OF failed] .
  then have "process_file cfg env job (w, n, ps) path = (w2, n, ps)"
    using valid loaded failed by (simp add: process_file_def Let_def)
  then show ?thesis using load_creates_table [OF loaded] by simp
qed

text \<open>
  The content hash stored for a file is the hash of the frame \<^verbatim>\<open>_clean_dataframe\<close>
  returned, which has the columns \<^verbatim>\<open>processed_at\<close> and \<^verbatim>\<open>file_source\<close>.
\<close>

lemma map_fst_retype:
  "map fst (map (\<lambda>(n, t'). if n = name then (n, t) else (n, t')) cs) = map fst cs"
  by (induction cs) (simp_all split: prod.splits)

lemma column_names_set_column:
  "set (column_names (set_column df name t v)) = insert name (set (column_names df))"
proof (cases "name \<in> set (column_names df)")
  case True
  then show ?thesis using map_fst_retype [of name t "columns df"]
    by (simp add: set_column_def column_names_def insert_absorb)
next
  case False
  then show ?thesis by (simp add: set_column_def column_names_def)
qed

lemma clean_dataframe_adds_metadata:
  assumes "clean_dataframe env now df = Some loaded_df"
  shows "''processed_at'' \<in> set (column_names loaded_df) \<and> ''file_source'' \<in> set (column_names loaded_df)"
proof -
  obtain df3 where "loaded_df = set_column (set_column df3 ''processed_at'' Datetime64 (Stamp now))
                      ''file_source'' Object (Str ''email_attachment'')"
    using assms by (auto simp add: clean_dataframe_def Let_def split: if_splits)
  then show ?thesis by (simp only: column_names_set_column) simp
qed

lemma stored_content_hash:
  assumes "map_of (fs w) path = Some b"
  shows "map_option content_hash (map_of (processed_files_db (mark_file_as_processed env w path loaded_df st)) path)
           = Some (calculate_content_hash env loaded_df)"
  using assms by (simp add: mark_file_as_processed_def Let_def update_conv')

subsection \<open>The dedup index\<close>


lemma kept_emit: "kept w (emit es w)" by (simp add: kept_def emit_def)




















subsection \<open>The upsert statement\<close>

lemma upsert_issued:
  assumes "upsert_data_to_target_table cfg env w t tgt = (w', True)"
  shows "\<exists>staged created.
           map_of (temp_tables w) t = Some staged
         \<and> events w' = events w @ created @
              [Sql (upsert_query (case tgt of None \<Rightarrow> target_table cfg | Some x \<Rightarrow> x)
                      (column_names staged) (temp_schema cfg @ ''.'' @ t) (unique_key cfg))]
         \<and> (created = [] \<or>
              created = [Sql (create_table_query (case tgt of None \<Rightarrow> target_table cfg | Some x \<Rightarrow> x)
                                 (temp_schema cfg @ ''.'' @ t))])"
proof (cases "map_of (temp_tables w) t")
  case None
  with assms show ?thesis by (simp add: upsert_data_to_target_table_def Let_def)
next
  case (Some staged)
  with assms have ok: "upsert_ok env t"
    by (auto simp add: upsert_data_to_target_table_def Let_def split: if_splits)
  let ?target = "case tgt of None \<Rightarrow> target_table cfg | Some x \<Rightarrow> x"
  let ?full = "temp_schema cfg @ ''.'' @ t"
  let ?created = "if \<not> (?target \<in> set (db_tables w) \<or> ?target \<in> set (map fst (temp_tables w)))
                  then [Sql (create_table_query ?target ?full)] else []"
  have "events (fst (upsert_data_to_target_table cfg env w t tgt)) =
          events w @ ?created @ [Sql (upsert_query ?target (column_names staged) ?full (unique_key cfg))]"
    using Some ok by (simp add: upsert_data_to_target_table_def Let_def emit_def)
  then have "events w' = events w @ ?created @ [Sql (upsert_query ?target (column_names staged) ?full (unique_key cfg))]"
    using assms by simp
  then show ?thesis using Some by (intro exI [of _ staged] exI [of _ ?created]) simp
qed

section \<open>The claims\<close>

subsection \<open>C1: terminal states\<close>

text \<open>
  C1 fails on the code. \<^verbatim>\<open>process_job\<close> catches its own exception and, in its handler
  (lines 154 to 157), marks the job FAILED, with \<^verbatim>\<open>error_message\<close> and \<^verbatim>\<open>completed_at\<close>,
  at the end of every call that fails; the retry controller then calls it again, and
  the call sets the job back to IN_PROGRESS. The handler of the controller itself (lines
  276 to 284) marks the job FAILED only after the last attempt, as
  \<open>controller_marks_failed_once\<close> shows with a job processor that raises. A job with the
  default three retries whose first attempt cannot create the staging schema and whose
  second attempt can: the statuses assigned are IN_PROGRESS, FAILED, IN_PROGRESS,
  COMPLETED, and the job ends COMPLETED with the error message of the first attempt.
  (For every run, each failed attempt that is followed by another one leaves FAILED:
  \<open>retry_run\<close>, \<open>terminal_is_final_retries\<close>. COMPLETED, and the FAILED of the last
  attempt, are not changed: the controller returns, the worker stores the job as it is,
  and \<^verbatim>\<open>cancel_job\<close> changes no job whose status is not PENDING, \<open>cancel_job_not_pending\<close>.)
\<close>

theorem terminal_state_left_on_retry:
  "(case process_job_with_retry cfg0 fail_once world_a job_a of
      (ok, job', w') \<Rightarrow>
        ok \<and> status_trace ''j1'' (events w') = [IN_PROGRESS, FAILED, IN_PROGRESS, COMPLETED]
      \<and> \<not> terminal_is_final (status_trace ''j1'' (events w'))
      \<and> status job' = COMPLETED
      \<and> error_message job' = Some ''Failed to create temporary schema'')"
proof -
  obtain ok job' w' where run: "process_job_with_retry cfg0 fail_once world_a job_a = (ok, job', w')"
    by (metis prod_cases3)
  note rr = retry_run [OF run]
  have ok: "ok" using rr(2) by (simp add: failed_prefix_fail_once job_a_fields)
  then have tr: "status_trace ''j1'' (events w') = [IN_PROGRESS, FAILED, IN_PROGRESS, COMPLETED]"
    using rr(4) by (simp add: failed_prefix_fail_once job_a_fields world_a_events)
  have st: "status job' = COMPLETED" using rr(8) ok by (simp add: job_a_fields)
  obtain s1 j1 w1 where p1: "process_job cfg0 (fail_once 0) world_a job_a = (s1, j1, w1)"
    by (metis prod_cases3)
  have s1: "\<not> s1" using process_job_result(1) [OF p1] by (simp add: fail_once_def no_schema_env_def)
  have m1: "max_retries j1 = 3" using process_job_result(6) [OF p1] by (simp add: job_a_fields)
  have e1: "error_message j1 = Some ''Failed to create temporary schema''"
    using process_job_error_message [OF p1] by (simp add: fail_once_def no_schema_env_def)
  obtain s2 j2 w2 where p2: "process_job cfg0 (fail_once 1) (sleep 1 w1) (j1\<lparr>retry_count := 1\<rparr>) = (s2, j2, w2)"
    by (metis prod_cases3)
  have s2: "s2" using process_job_result(1) [OF p2] by (simp add: fail_once_def ok_env_def)
  have e2: "error_message j2 = Some ''Failed to create temporary schema''"
    using process_job_error_message [OF p2] e1 by (simp add: fail_once_def ok_env_def)
  have "process_job_with_retry cfg0 fail_once world_a job_a = (True, j2, w2)"
    using p1 s1 m1 p2 s2
    by (simp add: process_job_with_retry_def process_job_with_retry_by_def job_a_fields upt_4
          job_processor_def Let_def)
  then have "job' = j2" using run by simp
  then show ?thesis using run ok tr st e2 by (simp add: terminal_def)
qed

subsection \<open>C2: started_at and completed_at\<close>

text \<open>
  C2 fails on the code, by the defect of C1. \<^verbatim>\<open>process_job\<close> assigns \<^verbatim>\<open>started_at\<close> at
  the start of every call and \<^verbatim>\<open>completed_at\<close> at the end of every call, also of a call
  that failed and is retried. The job that fails once and then succeeds has each of them
  assigned twice: \<^verbatim>\<open>started_at\<close> at 100 and again at 101, \<^verbatim>\<open>completed_at\<close> at 100, with
  FAILED, and again at 101. (For every run, each is assigned once per attempt made:
  \<open>retry_run\<close>. The handler of the controller assigns \<^verbatim>\<open>completed_at\<close> once, after the
  last attempt: \<open>controller_marks_failed_once\<close>. When the controller has returned, for
  a job with \<open>max_retries \<ge> 0\<close>, the status is COMPLETED or FAILED and \<^verbatim>\<open>completed_at\<close>
  is set: \<open>retry_run\<close>.)
\<close>

theorem timestamps_assigned_on_every_attempt:
  "(case process_job_with_retry cfg0 fail_once world_a job_a of
      (ok, job', w') \<Rightarrow>
        started_count ''j1'' (events w') = 2
      \<and> completed_count ''j1'' (events w') = 2
      \<and> lifecycle (events w') =
          [StatusSet ''j1'' IN_PROGRESS, StartedAtSet ''j1'' 100,
           StatusSet ''j1'' FAILED, CompletedAtSet ''j1'' 100, Sleep 1,
           StatusSet ''j1'' IN_PROGRESS, StartedAtSet ''j1'' 101,
           StatusSet ''j1'' COMPLETED, CompletedAtSet ''j1'' 101])"
proof -
  obtain ok job' w' where run: "process_job_with_retry cfg0 fail_once world_a job_a = (ok, job', w')"
    by (metis prod_cases3)
  note rr = retry_run [OF run]
  have counts: "started_count ''j1'' (events w') = 2" "completed_count ''j1'' (events w') = 2"
    using rr(6) rr(7) by (simp_all add: failed_prefix_fail_once job_a_fields world_a_events)
  have tr: "run_trace ''j1'' fail_once 3 [0 ..< 4] 100 =
          [StatusSet ''j1'' IN_PROGRESS, StartedAtSet ''j1'' 100,
           StatusSet ''j1'' FAILED, CompletedAtSet ''j1'' 100, Sleep 1,
           StatusSet ''j1'' IN_PROGRESS, StartedAtSet ''j1'' 101,
           StatusSet ''j1'' COMPLETED, CompletedAtSet ''j1'' 101]"
    by code_simp
  have clk: "clock world_a = 100" by code_simp
  have "lifecycle (events w') = run_trace ''j1'' fail_once 3 [0 ..< 4] 100"
    using rr(1) by (simp add: job_a_fields world_a_events clk lifecycle_def)
  then show ?thesis using run counts tr by simp
qed

subsection \<open>C3: the retry schedule\<close>

text \<open>
  C3. For a job with \<open>max_retries \<ge> 0\<close>: when every attempt fails (the staging schema
  cannot be created, the error \<^verbatim>\<open>process_job\<close> raises and catches), the controller
  makes \<open>max_retries + 1\<close> attempts, sleeps \<open>2 ^ a\<close> after the attempt number \<open>a\<close> for
  \<open>a < max_retries\<close> (the retry count of that attempt), does not sleep after the last
  attempt (the last lifecycle event is the assignment of \<^verbatim>\<open>completed_at\<close>) and leaves
  the job FAILED. When the attempt number \<open>k\<close> is the first to succeed, the job is
  COMPLETED after \<open>k + 1\<close> attempts and \<open>k\<close> sleeps, and nothing follows.
\<close>

theorem retry_schedule:
  assumes run: "process_job_with_retry cfg envs w job = (ok, job', w')"
      and m: "0 \<le> max_retries job"
  shows "((\<forall>a \<le> nat (max_retries job). \<not> schema_ok (envs a)) \<longrightarrow>
            \<not> ok \<and> status job' = FAILED
          \<and> started_count (job_id job) (events w') = started_count (job_id job) (events w) + nat (max_retries job) + 1
          \<and> sleeps (events w') = sleeps (events w) @ map (\<lambda>a. 2 ^ a) [0 ..< nat (max_retries job)]
          \<and> retry_count job' = (if max_retries job = 0 then retry_count job else max_retries job)
          \<and> (\<exists>t. last (lifecycle (events w')) = CompletedAtSet (job_id job) t))
       \<and> (\<forall>k \<le> nat (max_retries job). (\<forall>a < k. \<not> schema_ok (envs a)) \<and> schema_ok (envs k) \<longrightarrow>
            ok \<and> status job' = COMPLETED
          \<and> started_count (job_id job) (events w') = started_count (job_id job) (events w) + k + 1
          \<and> sleeps (events w') = sleeps (events w) @ map (\<lambda>a. 2 ^ a) [0 ..< k]
          \<and> retry_count job' = (if k = 0 then retry_count job else int k)
          \<and> (\<exists>t. last (lifecycle (events w')) = CompletedAtSet (job_id job) t))"
proof -
  let ?m = "nat (max_retries job)"
  let ?n = "nat (max_retries job + 1)"
  let ?k = "length (failed_prefix envs [0 ..< ?n])"
  note rr = retry_run [OF run]
  have n: "?n = Suc ?m" using m by simp
  have pos: "0 < ?n" using n by simp
  have exhausted: "\<not> ok \<and> status job' = FAILED
          \<and> started_count (job_id job) (events w') = started_count (job_id job) (events w) + ?m + 1
          \<and> sleeps (events w') = sleeps (events w) @ map (\<lambda>a. 2 ^ a) [0 ..< ?m]
          \<and> retry_count job' = (if max_retries job = 0 then retry_count job else max_retries job)
          \<and> (\<exists>t. last (lifecycle (events w')) = CompletedAtSet (job_id job) t)"
    if all: "\<forall>a \<le> ?m. \<not> schema_ok (envs a)"
  proof -
    have "\<forall>a < ?n. \<not> schema_ok (envs a)" using all n by simp
    then have k: "?k = ?n" using failed_prefix_all [of ?n envs] by simp
    have nok: "\<not> ok" using rr(2) k by simp
    have "retry_count job' = (if max_retries job = 0 then retry_count job else max_retries job)"
      using rr(10) [OF pos] k n m by (simp add: min_def)
    then show ?thesis using nok rr(5) rr(6) rr(8) [OF pos] rr(11) [OF pos] k n by (simp add: min_def)
  qed
  have success: "ok \<and> status job' = COMPLETED
          \<and> started_count (job_id job) (events w') = started_count (job_id job) (events w) + k + 1
          \<and> sleeps (events w') = sleeps (events w) @ map (\<lambda>a. 2 ^ a) [0 ..< k]
          \<and> retry_count job' = (if k = 0 then retry_count job else int k)
          \<and> (\<exists>t. last (lifecycle (events w')) = CompletedAtSet (job_id job) t)"
    if kle: "k \<le> ?m" and first: "(\<forall>a < k. \<not> schema_ok (envs a)) \<and> schema_ok (envs k)" for k
  proof -
    have kn: "k < ?n" using kle n by simp
    have k: "?k = k" using failed_prefix_first [OF kn, of envs] first by simp
    have ok: "ok" using rr(2) k kn by simp
    have "retry_count job' = (if k = 0 then retry_count job else int k)"
      using rr(10) [OF pos] k kn by (simp add: min_def)
    then show ?thesis using ok rr(5) rr(6) rr(8) [OF pos] rr(11) [OF pos] k kn kle by (simp add: min_def)
  qed
  show ?thesis using exhausted success by blast
qed

text \<open>C3 on the default of three retries: four attempts, the delays 1, 2, 4, FAILED.\<close>

theorem retry_schedule_default:
  "max_retries job_a = 3 \<and> list_all (\<lambda>a. \<not> schema_ok (always_fail a)) [0, 1, 2, 3] \<and>
   (case process_job_with_retry cfg0 always_fail world_a job_a of
      (ok, job', w') \<Rightarrow>
        \<not> ok \<and> status job' = FAILED \<and> started_count ''j1'' (events w') = 4 \<and>
        sleeps (events w') = [1, 2, 4] \<and> retry_count job' = 3)"
proof -
  obtain ok job' w' where run: "process_job_with_retry cfg0 always_fail world_a job_a = (ok, job', w')"
    by (metis prod_cases3)
  have all: "\<forall>a \<le> nat (max_retries job_a). \<not> schema_ok (always_fail a)"
    by (simp add: always_fail_def no_schema_env_def)
  have pw: "map (\<lambda>a. 2 ^ a) [0 ..< nat 3] = [1, 2, 4::nat]" by code_simp
  have "0 \<le> max_retries job_a" by (simp add: job_a_fields)
  from retry_schedule [OF run this] all
  show ?thesis using run pw
    by (simp add: job_a_fields world_a_events always_fail_def no_schema_env_def)
qed

subsection \<open>C8: cancellation\<close>

text \<open>
  C8 fails on the code. \<^verbatim>\<open>add_job\<close> puts the job on the queue; \<^verbatim>\<open>cancel_job\<close> looks its
  id up in \<^verbatim>\<open>processed_jobs\<close>, where the worker stores a job only after the retry
  controller has returned. A job that was submitted and is still PENDING is not found:
  the request returns \<^verbatim>\<open>False\<close> and the job stays PENDING on the queue. (So it is for
  every job whose id is not in \<^verbatim>\<open>processed_jobs\<close>: \<open>cancel_queued_job\<close>.)
\<close>

theorem cancel_pending_job_not_found:
  "map status (job_queue (snd (add_job world0 empty_queue job_data0))) = [PENDING]
 \<and> cancel_job world0 (snd (add_job world0 empty_queue job_data0)) (jd_id job_data0)
     = (False, snd (add_job world0 empty_queue job_data0))"
  by (simp add: add_job_def cancel_job_def empty_queue_def job_data0_def Let_def)

subsection \<open>C4: files with the same parsed data\<close>

text \<open>
  C4 fails on the code. \<^verbatim>\<open>is_duplicate_content\<close> hashes the frame as
  \<^verbatim>\<open>validate_excel_file\<close> read it; \<^verbatim>\<open>mark_file_as_processed\<close> is given \<^verbatim>\<open>loaded_df\<close>,
  the frame after \<^verbatim>\<open>_clean_dataframe\<close>, which has the columns \<^verbatim>\<open>processed_at\<close> (the time
  of the load) and \<^verbatim>\<open>file_source\<close> added, and stores the hash of that. Workbook A is
  processed; a file with other bytes and the same parsed data then passes the content
  check, and its staging table is loaded. (For every outside, the hash stored is the
  hash of a frame with the two added columns: \<open>stored_content_hash\<close>,
  \<open>clean_dataframe_adds_metadata\<close>.)
\<close>

theorem content_duplicate_not_detected:
  "read_excel ok_env ''workbook A, saved again'' = read_excel ok_env ''workbook A''
 \<and> archive world_resaved = [(''/pending/a.xlsx'', ''workbook A'')]
 \<and> validate_excel_file ok_env world_resaved ''/pending/c.xlsx'' = Inr sheet_a
 \<and> Some (map (content_hash \<circ> snd) (processed_files_db world_resaved))
     = map_option (\<lambda>df. [calculate_content_hash ok_env df]) (clean_dataframe ok_env 100 sheet_a)
 \<and> calculate_content_hash ok_env sheet_a \<notin> set (map (content_hash \<circ> snd) (processed_files_db world_resaved))
 \<and> is_duplicate_content ok_env world_resaved sheet_a ''/pending/c.xlsx'' = None
 \<and> (case process_excel_file ok_env world_resaved ''/pending/c.xlsx'' of Inl e \<Rightarrow> False | Inr df \<Rightarrow> True)
 \<and> staged_tables (events (after_job ok_env job_resaved world_resaved))
     = [''temp_job_j1_00000000'', ''temp_job_j2_00000001'']"
  by code_simp

subsection \<open>C5: files with the same bytes\<close>



subsection \<open>C6: dropping the staging table\<close>

text \<open>
  C6 fails on the code. \<^verbatim>\<open>cleanup_temp_table\<close> is the last statement of the loop body;
  when the upsert returns \<^verbatim>\<open>False\<close> the body goes on to the next file with
  \<^verbatim>\<open>continue\<close>. The job of workbook A, with an upsert that fails: the staging table is
  loaded and never dropped, and the job ends COMPLETED with one failed file. (For every
  file whose upsert fails the table stays: \<open>upsert_failure_keeps_staging_table\<close>.)
\<close>

theorem staging_table_left_after_failed_upsert:
  "(case process_job cfg0 no_upsert_env world_a job_a of
      (ok, job', w') \<Rightarrow>
        ok \<and> status job' = COMPLETED
      \<and> map_option failed_files (processing_stats job') = Some 1
      \<and> map fst (temp_tables w') = [''temp_job_j1_00000000'']
      \<and> events w' =
          [StatusSet ''j1'' IN_PROGRESS, StartedAtSet ''j1'' 100,
           Sql ''CREATE SCHEMA IF NOT EXISTS temp_processing'',
           Sql ''DROP TABLE IF EXISTS temp_processing.temp_job_j1_00000000'',
           ToSql ''temp_job_j1_00000000''
             \<lparr>columns = [(''hawb'', Object), (''pieces'', Int64),
                         (''processed_at'', Datetime64), (''file_source'', Object)],
              rows = [[Str ''A'', Num 1, Stamp 100, Str ''email_attachment''],
                      [Str ''B'', Num 2, Stamp 100, Str ''email_attachment'']]\<rparr>,
           StatusSet ''j1'' COMPLETED, CompletedAtSet ''j1'' 100])"
  by code_simp

subsection \<open>C7: a job completes when its files were run\<close>

text \<open>
  C7 fails on the code in its example. The rule holds: \<^verbatim>\<open>process_job\<close> returns
  \<^verbatim>\<open>True\<close> and leaves the job COMPLETED exactly when the staging schema could be
  created, whatever happened to the files, with \<^verbatim>\<open>processed_files + failed_files\<close> the
  number of files, and FAILED otherwise: \<open>job_completed_iff_schema_created\<close>. But a file
  counts as processed only after its upsert, and the upsert statement the code sends is
  one the database rejects (C9). With such a database no file of any job is counted:
  \<open>no_file_processed_without_upsert\<close>. The job with a workbook without \<^verbatim>\<open>hawb\<close> and a
  valid workbook ends COMPLETED with \<^verbatim>\<open>processed_files = 0\<close> and \<^verbatim>\<open>failed_files = 2\<close>;
  the valid file is still pending and not recorded, and its staging table is left (C6).
\<close>

theorem valid_file_fails_at_upsert:
  "(case process_job cfg0 no_upsert_env world_two job_two of
      (ok, job', w') \<Rightarrow>
        validate_excel_file no_upsert_env world_two ''/pending/n.xlsx'' = Inl (MissingColumns [''hawb''])
      \<and> validate_excel_file no_upsert_env world_two ''/pending/a.xlsx'' = Inr sheet_a
      \<and> ok \<and> status job' = COMPLETED
      \<and> processing_stats job' =
          Some \<lparr>total_records = 0, processed_files = 0, failed_files = 2, processing_time = 0\<rparr>
      \<and> fs w' = fs world_two
      \<and> processed_files_db w' = []
      \<and> map fst (temp_tables w') = [''temp_job_j1_00000000''])"
  by code_simp

subsection \<open>C9: the upsert statement\<close>

text \<open>
  C9 fails on the code. The statement \<^verbatim>\<open>upsert_data_to_target_table\<close> builds gives the
  staging table the alias \<^verbatim>\<open>src\<close> and assigns \<^verbatim>\<open><col> = src.<col>\<close> in
  \<^verbatim>\<open>DO UPDATE SET\<close>; a target that does not exist is first made by
  \<^verbatim>\<open>CREATE TABLE <target> AS SELECT * FROM <staging> WHERE 1=0\<close>, which copies the
  columns and no constraint. PostgreSQL rejects the statement: in \<^verbatim>\<open>DO UPDATE SET\<close> the
  row proposed for insertion is called \<^verbatim>\<open>EXCLUDED\<close> and the alias of the \<^verbatim>\<open>SELECT\<close> is
  not visible, and \<^verbatim>\<open>ON CONFLICT (hawb)\<close> needs a unique index on \<^verbatim>\<open>hawb\<close>, which a
  target made this way does not have. For the staging table of workbook A and no target:
  the text of the two statements; a database that accepts them gets both, in this
  order, and with a database that rejects them the function returns \<^verbatim>\<open>False\<close> and the
  state is as before, so that no row of the target is overwritten. (For every staging
  table the statement sent is \<open>upsert_query\<close> for its columns and the configured key:
  \<open>upsert_issued\<close>.)
\<close>

theorem upsert_statement_names_staging_alias:
  "map_option column_names (map_of (temp_tables world_staged) ''temp_job_j1_00000000'')
     = Some [''hawb'', ''pieces'', ''processed_at'', ''file_source'']
 \<and> db_tables world_staged = []
 \<and> create_table_query ''tracking_data'' ''temp_processing.temp_job_j1_00000000'' =
      nl @ spaces 24 @ ''CREATE TABLE tracking_data AS '' @
      nl @ spaces 24 @ ''SELECT * FROM temp_processing.temp_job_j1_00000000 WHERE 1=0'' @
      nl @ spaces 20
 \<and> upsert_query ''tracking_data'' [''hawb'', ''pieces'', ''processed_at'', ''file_source'']
       ''temp_processing.temp_job_j1_00000000'' ''hawb'' =
      nl @ spaces 20 @ ''INSERT INTO tracking_data (hawb, pieces, processed_at, file_source)'' @
      nl @ spaces 20 @ ''SELECT hawb, pieces, processed_at, file_source FROM temp_processing.temp_job_j1_00000000 src'' @
      nl @ spaces 20 @ ''ON CONFLICT (hawb) DO UPDATE SET'' @
      nl @ spaces 20 @ ''pieces = src.pieces, processed_at = src.processed_at, file_source = src.file_source'' @
      nl @ spaces 16
 \<and> upsert_data_to_target_table cfg0 env world_staged ''temp_job_j1_00000000'' None =
      (if upsert_ok env ''temp_job_j1_00000000''
       then (emit [Sql (create_table_query ''tracking_data'' ''temp_processing.temp_job_j1_00000000''),
                   Sql (upsert_query ''tracking_data'' [''hawb'', ''pieces'', ''processed_at'', ''file_source'']
                          ''temp_processing.temp_job_j1_00000000'' ''hawb'')]
               (world_staged\<lparr>db_tables := [''tracking_data'']\<rparr>), True)
       else (world_staged, False))"
proof -
  let ?t = "''temp_job_j1_00000000''"
  have cols: "map_option column_names (map_of (temp_tables world_staged) ?t)
     = Some [''hawb'', ''pieces'', ''processed_at'', ''file_source'']" by code_simp
  have db: "db_tables world_staged = []" by code_simp
  have names: "map fst (temp_tables world_staged) = [?t]" by code_simp
  have texts: "create_table_query ''tracking_data'' ''temp_processing.temp_job_j1_00000000'' =
      nl @ spaces 24 @ ''CREATE TABLE tracking_data AS '' @
      nl @ spaces 24 @ ''SELECT * FROM temp_processing.temp_job_j1_00000000 WHERE 1=0'' @
      nl @ spaces 20"
    "upsert_query ''tracking_data'' [''hawb'', ''pieces'', ''processed_at'', ''file_source'']
       ''temp_processing.temp_job_j1_00000000'' ''hawb'' =
      nl @ spaces 20 @ ''INSERT INTO tracking_data (hawb, pieces, processed_at, file_source)'' @
      nl @ spaces 20 @ ''SELECT hawb, pieces, processed_at, file_source FROM temp_processing.temp_job_j1_00000000 src'' @
      nl @ spaces 20 @ ''ON CONFLICT (hawb) DO UPDATE SET'' @
      nl @ spaces 20 @ ''pieces = src.pieces, processed_at = src.processed_at, file_source = src.file_source'' @
      nl @ spaces 16"
    by code_simp+
  from cols obtain staged where st: "map_of (temp_tables world_staged) ?t = Some staged"
    and cn: "column_names staged = [''hawb'', ''pieces'', ''processed_at'', ''file_source'']" by auto
  have run: "upsert_data_to_target_table cfg0 env world_staged ?t None =
      (if upsert_ok env ?t
       then (emit [Sql (create_table_query ''tracking_data'' ''temp_processing.temp_job_j1_00000000''),
                   Sql (upsert_query ''tracking_data'' [''hawb'', ''pieces'', ''processed_at'', ''file_source'']
                          ''temp_processing.temp_job_j1_00000000'' ''hawb'')]
               (world_staged\<lparr>db_tables := [''tracking_data'']\<rparr>), True)
       else (world_staged, False))"
    using st cn db names by (simp add: upsert_data_to_target_table_def Let_def cfg0_def)
  show ?thesis using cols db texts run by simp
qed

subsection \<open>C10: one row per business key\<close>

text \<open>
  C10 fails on the code. \<^verbatim>\<open>_process_dataframe\<close> drops the rows that repeat a key
  (\<open>drop_duplicates_distinct\<close>), but \<^verbatim>\<open>process_job\<close> does not use the frame it returns:
  \<^verbatim>\<open>load_excel_to_temp_table\<close> reads the file again and cleans it with
  \<^verbatim>\<open>_clean_dataframe\<close>, which drops no duplicates. A workbook with the key \<^verbatim>\<open>A\<close> in two
  rows: the frame \<^verbatim>\<open>process_excel_file\<close> returns has one row, the frame loaded into the
  staging table has both.
\<close>

theorem duplicate_keys_reach_staging:
  "map (\<lambda>r. cell_at sheet_dups r ''hawb'') (rows sheet_dups) = [Some (Str ''A''), Some (Str ''A'')]
 \<and> (case process_excel_file ok_env world_dups ''/pending/d.xlsx'' of
       Inl e \<Rightarrow> False
     | Inr df \<Rightarrow> map (\<lambda>r. cell_at df r ''hawb'') (rows df) = [Some (Str ''A'')])
 \<and> map (\<lambda>df. map (\<lambda>r. cell_at df r ''hawb'') (rows df))
       (staged_frames (events (after_job ok_env job_dups world_dups)))
     = [[Some (Str ''A''), Some (Str ''A'')]]"
  by code_simp

end
